theory Spec2Isabelle
  imports Main
begin

section \<open>C integer arithmetic\<close>

text \<open>
  The firmware's \<open>int\<close> values are modelled as mathematical integers: the model
  computes what the C code computes as long as no signed operation overflows 32 bits,
  which C leaves undefined. The 8-bit static variables of the quadrature decoder are
  converted with their wrap-around written out (\<open>int8\<close> below). C division truncates
  towards zero and the remainder takes the sign of the dividend; division by zero and a
  read outside an array are undefined behaviour and are faults of the model.
\<close>

datatype fault = DivideByZero | IndexOutOfBounds | NullHandler | BadArgument

definition c_div :: "int \<Rightarrow> int \<Rightarrow> int" where
  "c_div a b = sgn a * sgn b * (\<bar>a\<bar> div \<bar>b\<bar>)"

definition c_mod :: "int \<Rightarrow> int \<Rightarrow> int" where
  "c_mod a b = a - b * c_div a b"

definition c_div_checked :: "int \<Rightarrow> int \<Rightarrow> fault + int" where
  "c_div_checked a b = (if b = 0 then Inl DivideByZero else Inr (c_div a b))"

section \<open>The formatter (ui.c, format_number)\<close>

text \<open>Decimal digits of a natural number, most significant first, as \<open>%d\<close> prints them.\<close>

definition digit_char :: "nat \<Rightarrow> char" where
  "digit_char d = char_of (of_char (CHR ''0'') + d)"

function dec_digits :: "nat \<Rightarrow> string" where
  "dec_digits n = (if n < 10 then [digit_char n] else dec_digits (n div 10) @ [digit_char (n mod 10)])"
  by pat_completeness auto
termination
  by (relation "measure id") auto

declare dec_digits.simps [simp del]

text \<open>
  \<open>sprintf_d zero width n\<close> is what \<open>sprintf\<close> writes for the conversion \<open>%<width>d\<close>
  (\<open>zero = False\<close>) or \<open>%0<width>d\<close> (\<open>zero = True\<close>): the digits with a minus sign
  for a negative number, padded on the left to the minimum field width.
\<close>

definition sprintf_d :: "bool \<Rightarrow> nat \<Rightarrow> int \<Rightarrow> string" where
  "sprintf_d zero width n =
     (if n < 0 then
        (let ds = dec_digits (nat (- n)) in
         if zero then CHR ''-'' # replicate (width - 1 - length ds) (CHR ''0'') @ ds
         else replicate (width - 1 - length ds) (CHR '' '') @ CHR ''-'' # ds)
      else
        (let ds = dec_digits (nat n) in
         replicate (width - length ds) (if zero then CHR ''0'' else CHR '' '') @ ds))"

text \<open>
  \<open>strcat\<close> appends the source up to, and without, its first NUL character. The source
  arrays of \<open>format_number\<close> are \<open>{'m', suffix, '\0'}\<close> and \<open>{suffix, ' ', '\0'}\<close>.
\<close>

definition strcat :: "string \<Rightarrow> string \<Rightarrow> string" where
  "strcat out src = out @ takeWhile (\<lambda>c. c \<noteq> CHR 0x00) src"

text \<open>The loop \<open>while(num >= 1000000) { num /= 1000; magnitude++; }\<close>.\<close>

function scale_loop :: "int \<Rightarrow> int \<Rightarrow> int \<times> int" where
  "scale_loop num magnitude =
     (if num \<ge> 1000000 then scale_loop (c_div num 1000) (magnitude + 1) else (num, magnitude))"
  by pat_completeness auto
termination
  by (relation "measure (\<lambda>(num, magnitude). nat num)") (auto simp: c_div_def)

declare scale_loop.simps [simp del]

definition format_number :: "int \<Rightarrow> char \<Rightarrow> string" where
  "format_number num0 suffix =
     (let num = (if num0 < 0 then 0 else num0);
          (num, magnitude) = scale_loop num 1;
          whole = c_div num 1000;
          remainder = c_mod num 1000;
          out = (if whole < 10 then
                   sprintf_d False 1 whole @ ''.'' @ sprintf_d True 2 (c_div remainder 10)
                 else if whole < 100 then
                   sprintf_d True 2 whole @ ''.'' @ sprintf_d False 1 (c_div remainder 100)
                 else sprintf_d True 3 whole)
      in if magnitude = 1 then strcat out [CHR ''m'', suffix, CHR 0x00]
         else strcat out [suffix, CHR '' '', CHR 0x00])"

definition whole_part :: "int \<Rightarrow> int" where
  \<comment> \<open>The value of \<open>whole\<close> inside \<open>format_number\<close>: the scaled number's thousands.\<close>
  "whole_part v = c_div (fst (scale_loop (if v < 0 then 0 else v) 1)) 1000"

section \<open>Readouts (ui.c, print_resistance)\<close>

text \<open>
  \<open>get_voltage()\<close> and \<open>get_current_usage()\<close> belong to the control facade and are
  arguments here. The ohm glyph of the display font is an argument too: the header that
  defines \<open>FONT_GLYPH_OHM\<close> is not part of the sources, and the glyph is taken to be one
  character.
\<close>

definition print_resistance :: "char \<Rightarrow> int \<Rightarrow> int \<Rightarrow> fault + string" where
  "print_resistance ohm voltage current =
     (if current > 0 then
        (case c_div_checked (voltage * 10) (c_div current 100000) of
           Inl f \<Rightarrow> Inl f
         | Inr r \<Rightarrow> Inr (format_number r ohm))
      else Inr (''----'' @ [ohm]))"

section \<open>The quadrature decoder (ui.c, quadrature_event_isr)\<close>

text \<open>
  Modelled from the spec: the UI event record of \<open>tasks.h\<close>, which is not part of the
  sources: \<open>{kind, timestamp, integer_arg}\<close> with kind one of NONE, BUTTON_PRESS,
  UP_DOWN, ADC_READING, OVERTEMP. The field names \<open>type\<close>, \<open>when\<close> and \<open>int_arg\<close> are
  those \<open>ui.c\<close> uses.
\<close>

datatype ui_event_type =
  UI_EVENT_NONE | UI_EVENT_BUTTONPRESS | UI_EVENT_UPDOWN | UI_EVENT_ADC_READING | UI_EVENT_OVERTEMP

record ui_event =
  ev_type :: ui_event_type
  ev_when :: nat
  int_arg :: int

text \<open>Conversion of an \<open>int\<close> to the two's-complement \<open>int8\<close> of the static variables.\<close>

definition int8 :: "int \<Rightarrow> int" where
  "int8 x = (x + 128) mod 256 - 128"

definition quadrature_states :: "int list" where
  "quadrature_states = [1, 3, 0, 2]"

text \<open>Reading an array of the firmware: an index outside the array is a fault.\<close>

definition array_at :: "'a list \<Rightarrow> int \<Rightarrow> 'a option" where
  "array_at xs i = (if 0 \<le> i \<and> i < int (length xs) then Some (xs ! nat i) else None)"

record quadrature =
  last_levels :: int
  count :: int

definition quadrature_init :: quadrature where
  "quadrature_init = \<lparr>last_levels = 3, count = 0\<rparr>"

text \<open>
  The second half of the handler: the test \<open>abs(count) >= 4\<close>. The result is the new
  static state and the events handed to \<open>xQueueSendToBackFromISR\<close> (none or one); the
  bounded queue itself belongs to the scheduler.
\<close>

definition quadrature_emit :: "nat \<Rightarrow> quadrature \<Rightarrow> quadrature \<times> ui_event list" where
  "quadrature_emit now q =
     (if \<bar>count q\<bar> \<ge> 4 then
        (q\<lparr>count := int8 (c_mod (count q) 4)\<rparr>,
         [\<lparr>ev_type = UI_EVENT_UPDOWN, ev_when = now, int_arg = c_div (count q) 4\<rparr>])
      else (q, []))"

text \<open>
  One invocation of the handler, with \<open>levels\<close> the value \<open>Quadrature_Read()\<close> returns and
  \<open>now\<close> the tick count.
\<close>

definition quadrature_event_isr :: "int \<Rightarrow> nat \<Rightarrow> quadrature \<Rightarrow> fault + quadrature \<times> ui_event list" where
  "quadrature_event_isr levels now q =
     (case array_at quadrature_states (last_levels q) of
        None \<Rightarrow> Inl IndexOutOfBounds
      | Some fwd \<Rightarrow>
          if fwd = levels then
            Inr (quadrature_emit now (q\<lparr>count := int8 (count q + 1), last_levels := int8 levels\<rparr>))
          else
            (case array_at quadrature_states levels of
               None \<Rightarrow> Inl IndexOutOfBounds
             | Some back \<Rightarrow>
                 if back = last_levels q then
                   Inr (quadrature_emit now (q\<lparr>count := int8 (count q - 1), last_levels := int8 levels\<rparr>))
                 else Inr (quadrature_emit now q)))"

text \<open>
  The handler run once for each reading of a sequence of edges (reading and tick count),
  collecting the events sent.
\<close>

fun quadrature_feed :: "(int \<times> nat) list \<Rightarrow> quadrature \<Rightarrow> fault + quadrature \<times> ui_event list" where
  "quadrature_feed [] q = Inr (q, [])"
| "quadrature_feed ((levels, now) # es) q =
     (case quadrature_event_isr levels now q of
        Inl f \<Rightarrow> Inl f
      | Inr (q', sent) \<Rightarrow>
          (case quadrature_feed es q' of
             Inl f \<Rightarrow> Inl f
           | Inr (q'', sent') \<Rightarrow> Inr (q'', sent @ sent')))"

section \<open>Data of the UI (config.h, ui.c)\<close>

datatype adc_channel =
  ADC_CHAN_CURRENT_SENSE | ADC_CHAN_VOLTAGE_SENSE | ADC_CHAN_OPAMP_OUT | ADC_CHAN_FET_IN
  | ADC_CHAN_TEMP | ADC_CHAN_CURRENT_SET

definition CURRENT_LOWRANGE_STEP :: int where "CURRENT_LOWRANGE_STEP = 5000"
definition CURRENT_FULLRANGE_STEP :: int where "CURRENT_FULLRANGE_STEP = 20000"
definition CURRENT_LOWRANGE_MAX :: int where "CURRENT_LOWRANGE_MAX = 250000"
definition CURRENT_FULLRANGE_MAX :: int where "CURRENT_FULLRANGE_MAX = 6000000"

record state_t =
  current_setpoint :: int
  current_range :: int

record settings_t =
  dac_low_gain :: int
  dac_high_gain :: int
  dac_low_offset :: int
  dac_high_offset :: int
  opamp_offset_trim :: int
  adc_current_offset :: int
  adc_current_gain :: int
  adc_voltage_offset :: int
  adc_voltage_gain :: int
  backlight_brightness :: int
  lcd_contrast :: int

text \<open>The enumeration \<open>readout_function\<close>; a C enumeration is an integer.\<close>

type_synonym readout_function = int

definition READOUT_NONE :: readout_function where "READOUT_NONE = 0"
definition READOUT_CURRENT_SETPOINT :: readout_function where "READOUT_CURRENT_SETPOINT = 1"
definition READOUT_CURRENT_USAGE :: readout_function where "READOUT_CURRENT_USAGE = 2"
definition READOUT_VOLTAGE :: readout_function where "READOUT_VOLTAGE = 3"
definition READOUT_POWER :: readout_function where "READOUT_POWER = 4"
definition READOUT_RESISTANCE :: readout_function where "READOUT_RESISTANCE = 5"

datatype output_mode = OUTPUT_MODE_OFF | OUTPUT_MODE_ON | OUTPUT_MODE_FEEDBACK

text \<open>
  A state descriptor holds a function pointer and a \<open>void*\<close>. The function pointers of
  \<open>ui.c\<close> are the screens; \<open>Fn_NULL\<close> is the null pointer. A \<open>void*\<close> is an integer
  cast to a pointer (\<open>Ptr_int 0\<close> is \<open>NULL\<close>) or the address of one of the constant
  objects of \<open>ui.c\<close>.
\<close>

datatype fn =
  Fn_NULL | Fn_cc_load | Fn_menu | Fn_calibrate | Fn_display_config | Fn_set_contrast
  | Fn_overtemp | Fn_splashscreen

datatype pointer =
  Ptr_int int | Ptr_set_readout_menu | Ptr_choose_readout_menu | Ptr_main_menu
  | Ptr_display_settings_cc

record state_func =
  func :: fn
  arg :: pointer
  is_main_state :: int

record menuitem =
  caption :: "string option"
  new_state :: state_func

record menudata =
  title :: "string option"
  items :: "menuitem list"

definition STATE_MAIN :: state_func where
  "STATE_MAIN = \<lparr>func = Fn_NULL, arg = Ptr_int 0, is_main_state = 0\<rparr>"

definition STATE_CC_LOAD :: state_func where
  "STATE_CC_LOAD = \<lparr>func = Fn_cc_load, arg = Ptr_int 0, is_main_state = 1\<rparr>"

definition STATE_CALIBRATE :: state_func where
  "STATE_CALIBRATE = \<lparr>func = Fn_calibrate, arg = Ptr_int 0, is_main_state = 0\<rparr>"

definition STATE_CONFIGURE_CC_DISPLAY :: state_func where
  "STATE_CONFIGURE_CC_DISPLAY =
     \<lparr>func = Fn_display_config, arg = Ptr_display_settings_cc, is_main_state = 0\<rparr>"

definition STATE_SET_CONTRAST :: state_func where
  "STATE_SET_CONTRAST = \<lparr>func = Fn_set_contrast, arg = Ptr_int 0, is_main_state = 0\<rparr>"

definition STATE_OVERTEMP :: state_func where
  "STATE_OVERTEMP = \<lparr>func = Fn_overtemp, arg = Ptr_int 0, is_main_state = 0\<rparr>"

definition STATE_SPLASHSCREEN :: state_func where
  "STATE_SPLASHSCREEN = \<lparr>func = Fn_splashscreen, arg = Ptr_int 0, is_main_state = 0\<rparr>"

definition STATE_MAIN_MENU :: state_func where
  "STATE_MAIN_MENU = \<lparr>func = Fn_menu, arg = Ptr_main_menu, is_main_state = 0\<rparr>"

definition menu_end :: menuitem where
  \<comment> \<open>The terminating entry \<open>{NULL, {NULL, NULL, 0}}\<close> of every item array.\<close>
  "menu_end = \<lparr>caption = None, new_state = \<lparr>func = Fn_NULL, arg = Ptr_int 0, is_main_state = 0\<rparr>\<rparr>"

definition readout_item :: "string \<Rightarrow> int \<Rightarrow> menuitem" where
  \<comment> \<open>An entry \<open>{label, {NULL, (void*)value, 0}}\<close>.\<close>
  "readout_item label v =
     \<lparr>caption = Some label, new_state = \<lparr>func = Fn_NULL, arg = Ptr_int v, is_main_state = 0\<rparr>\<rparr>"

definition set_readout_menu :: menudata where
  "set_readout_menu = \<lparr>title = Some ''Choose value'', items =
     [readout_item ''Set Current'' READOUT_CURRENT_SETPOINT,
      readout_item ''Act. Current'' READOUT_CURRENT_USAGE,
      readout_item ''Voltage'' READOUT_VOLTAGE,
      readout_item ''Power'' READOUT_POWER,
      readout_item ''Resistance'' READOUT_RESISTANCE,
      readout_item ''None'' READOUT_NONE,
      menu_end]\<rparr>"

definition choose_readout_menu :: menudata where
  "choose_readout_menu = \<lparr>title = Some ''Readouts'', items =
     [readout_item ''Main display'' 0,
      readout_item ''Left display'' 1,
      readout_item ''Right display'' 2,
      menu_end]\<rparr>"

definition main_menu :: menudata where
  "main_menu = \<lparr>title = None, items =
     [\<lparr>caption = Some ''C/C Load'', new_state = STATE_CC_LOAD\<rparr>,
      \<lparr>caption = Some ''Readouts'', new_state = STATE_CONFIGURE_CC_DISPLAY\<rparr>,
      \<lparr>caption = Some ''Contrast'', new_state = STATE_SET_CONTRAST\<rparr>,
      \<lparr>caption = Some ''Calibrate'', new_state = STATE_CALIBRATE\<rparr>,
      menu_end]\<rparr>"

section \<open>The collaborators\<close>

text \<open>
  The store the UI task writes: the live state of the control facade, the output mode it
  was last given, the persisted settings and display configuration with the log of the
  writes made to them, the opamp trim register and the contrast given to the display.
  The calls of the display driver change nothing of this store and are left out of the
  screens below, and so is \<open>draw_menu\<close>, which reads the menu's items to draw them.
  \<open>draw_status\<close> calls through the table of readout functions and is part of the model.
\<close>

datatype eeprom_write =
  Write_settings settings_t | Write_lcd_contrast int | Write_readout int readout_function

record world =
  state :: state_t
  output_mode :: output_mode
  settings :: settings_t
  display_settings_cc :: "readout_function list"
  eeprom_log :: "eeprom_write list"
  opamp_trim_reg :: int
  display_contrast :: int

text \<open>
  Modelled from the spec: \<open>set_current\<close> of the control facade, declared in \<open>config.h\<close>
  and defined outside the sources: clamp to \<open>[0, CURRENT_FULLRANGE_MAX]\<close>; select range
  0 if the setpoint is at most \<open>CURRENT_LOWRANGE_MAX\<close>, else range 1.
\<close>

definition set_current :: "int \<Rightarrow> world \<Rightarrow> world" where
  "set_current setpoint w =
     (let sp = (if setpoint < 0 then 0
                else if setpoint > CURRENT_FULLRANGE_MAX then CURRENT_FULLRANGE_MAX
                else setpoint)
      in w\<lparr>state := \<lparr>current_setpoint = sp,
                      current_range = (if sp \<le> CURRENT_LOWRANGE_MAX then 0 else 1)\<rparr>\<rparr>)"

text \<open>
  Modelled from the spec: \<open>set_output_mode\<close> of the control facade, declared in
  \<open>config.h\<close> and defined outside the sources: it puts the output into the given mode.
\<close>

definition set_output_mode :: "output_mode \<Rightarrow> world \<Rightarrow> world" where
  "set_output_mode m w = w\<lparr>output_mode := m\<rparr>"

text \<open>
  The three uses of \<open>EEPROM_Write\<close> in \<open>ui.c\<close>: the whole settings record, the contrast
  field, and one readout slot of the display configuration (a slot outside the array of
  three is a fault).
\<close>

definition EEPROM_Write_settings :: "settings_t \<Rightarrow> world \<Rightarrow> world" where
  "EEPROM_Write_settings s w = w\<lparr>settings := s, eeprom_log := eeprom_log w @ [Write_settings s]\<rparr>"

definition EEPROM_Write_lcd_contrast :: "int \<Rightarrow> world \<Rightarrow> world" where
  "EEPROM_Write_lcd_contrast c w =
     w\<lparr>settings := (settings w)\<lparr>lcd_contrast := c\<rparr>,
       eeprom_log := eeprom_log w @ [Write_lcd_contrast c]\<rparr>"

definition EEPROM_Write_readout :: "int \<Rightarrow> readout_function \<Rightarrow> world \<Rightarrow> fault + world" where
  "EEPROM_Write_readout slot r w =
     (if 0 \<le> slot \<and> slot < int (length (display_settings_cc w)) then
        Inr (w\<lparr>display_settings_cc := (display_settings_cc w)[nat slot := r],
               eeprom_log := eeprom_log w @ [Write_readout slot r]\<rparr>)
      else Inl IndexOutOfBounds)"

definition adjust_current_setpoint :: "int \<Rightarrow> world \<Rightarrow> world" where
  "adjust_current_setpoint delta w =
     (if current_range (state w) = 0 then
        set_current (current_setpoint (state w) + delta * CURRENT_LOWRANGE_STEP) w
      else
        set_current (current_setpoint (state w) + delta * CURRENT_FULLRANGE_STEP) w)"

section \<open>Events as the screens receive them (ui.c, next_event)\<close>

text \<open>
  One call of \<open>next_event\<close> is one cycle of a screen. What the environment decides in a
  cycle is a \<open>tick\<close>: the event \<open>xQueueReceive\<close> delivers within the wait (\<open>None\<close> when
  the tick period has elapsed or the wait times out), the tick count, and what the
  sensors and the output mode read until the next call.
\<close>

record tick =
  received :: "ui_event option"
  tick_count :: nat
  mode_reading :: output_mode
  raw_voltage :: int
  raw_current_usage :: int

definition next_event :: "ui_event \<Rightarrow> tick \<Rightarrow> ui_event" where
  "next_event event t =
     (case received t of
        None \<Rightarrow> event\<lparr>ev_type := UI_EVENT_ADC_READING, ev_when := tick_count t\<rparr>
      | Some e \<Rightarrow> e)"

text \<open>
  A screen declares its event on the stack; the screens that test it before the first
  call set its type to \<open>UI_EVENT_NONE\<close>. The other fields are indeterminate and are not
  read before \<open>next_event\<close> has written them.
\<close>

definition fresh_event :: ui_event where
  "fresh_event = \<lparr>ev_type = UI_EVENT_NONE, ev_when = 0, int_arg = 0\<rparr>"

text \<open>
  What running a screen on a sequence of ticks gives: it returns a value, with the store
  and the ticks left; or the ticks end while it waits in \<open>next_event\<close>; or it faults.
\<close>

datatype 'a outcome = Returned 'a world "tick list" | Blocked world | Fault fault

definition waiting :: "ui_event \<Rightarrow> bool" where
  \<comment> \<open>The loop condition \<open>event.type != UI_EVENT_BUTTONPRESS || event.int_arg != 1\<close>.\<close>
  "waiting event \<longleftrightarrow> ev_type event \<noteq> UI_EVENT_BUTTONPRESS \<or> int_arg event \<noteq> 1"

section \<open>The status display (ui.c, draw_status)\<close>

text \<open>
  Modelled from the spec: the readers of the control facade, declared in \<open>config.h\<close> and
  defined outside the sources. The setpoint read is the live setpoint; the current usage
  is \<open>(raw_current - adc_current_offset) * adc_current_gain\<close> and the voltage
  \<open>(raw_voltage - adc_voltage_offset) * adc_voltage_gain\<close>, on the raw readings of the
  cycle and the persisted settings.
\<close>

definition get_current_setpoint :: "world \<Rightarrow> int" where
  "get_current_setpoint w = current_setpoint (state w)"

definition get_current_usage :: "world \<Rightarrow> tick \<Rightarrow> int" where
  "get_current_usage w t =
     (raw_current_usage t - adc_current_offset (settings w)) * adc_current_gain (settings w)"

definition get_voltage :: "world \<Rightarrow> tick \<Rightarrow> int" where
  "get_voltage w t = (raw_voltage t - adc_voltage_offset (settings w)) * adc_voltage_gain (settings w)"

text \<open>
  Modelled from the spec: the ohm glyph of the display font, \<open>GLYPH_CHAR(FONT_GLYPH_OHM)\<close>.
  The header that defines it is not part of the sources; it is taken to be the one
  character with code 0xEA. The glyph only appears in the text drawn.
\<close>

definition GLYPH_CHAR_FONT_GLYPH_OHM :: char where
  "GLYPH_CHAR_FONT_GLYPH_OHM = CHR 0xEA"

text \<open>
  The functions a readout can point to, and the table \<open>readout_functions\<close>, indexed by
  the readout kind. The entry of \<open>READOUT_NONE\<close> holds a null pointer, not
  \<open>print_nothing\<close>.
\<close>

datatype print_fn =
  Print_NULL | Print_nothing | Print_setpoint | Print_current_usage | Print_voltage
  | Print_power | Print_resistance

record readout_function_impl =
  print_func :: print_fn
  label :: string

definition readout_functions :: "readout_function_impl list" where
  "readout_functions =
     [\<lparr>print_func = Print_NULL, label = []\<rparr>,
      \<lparr>print_func = Print_setpoint, label = ''SET''\<rparr>,
      \<lparr>print_func = Print_current_usage, label = ''ACT''\<rparr>,
      \<lparr>print_func = Print_voltage, label = []\<rparr>,
      \<lparr>print_func = Print_power, label = []\<rparr>,
      \<lparr>print_func = Print_resistance, label = []\<rparr>]"

definition print_power :: "world \<Rightarrow> tick \<Rightarrow> string" where
  "print_power w t =
     format_number (c_div (get_current_usage w t) 1000 * c_div (get_voltage w t) 1000) (CHR ''W'')"

text \<open>The call \<open>readout->func(buf)\<close>: the text left in \<open>buf\<close>, or the fault of the call.\<close>

definition call_print :: "print_fn \<Rightarrow> world \<Rightarrow> tick \<Rightarrow> fault + string" where
  "call_print f w t =
     (case f of
        Print_NULL \<Rightarrow> Inl NullHandler
      | Print_nothing \<Rightarrow> Inr ''      ''
      | Print_setpoint \<Rightarrow> Inr (format_number (get_current_setpoint w) (CHR ''A''))
      | Print_current_usage \<Rightarrow> Inr (format_number (get_current_usage w t) (CHR ''A''))
      | Print_voltage \<Rightarrow> Inr (format_number (get_voltage w t) (CHR ''V''))
      | Print_power \<Rightarrow> Inr (print_power w t)
      | Print_resistance \<Rightarrow>
          print_resistance GLYPH_CHAR_FONT_GLYPH_OHM (get_voltage w t) (get_current_usage w t))"

text \<open>The entry \<open>readout_functions[config->readouts[k]]\<close>.\<close>

definition readout_at :: "readout_function list \<Rightarrow> int \<Rightarrow> fault + readout_function_impl" where
  "readout_at readouts k =
     (case array_at readouts k of
        None \<Rightarrow> Inl IndexOutOfBounds
      | Some r \<Rightarrow>
          (case array_at readout_functions r of
             None \<Rightarrow> Inl IndexOutOfBounds
           | Some readout \<Rightarrow> Inr readout))"

text \<open>
  The loop \<open>for(int i = 0; i < 2; i++)\<close> of \<open>draw_status\<close> over the two smaller
  displays: the texts it draws, or the fault of a call.
\<close>

function draw_status_small :: "readout_function list \<Rightarrow> int \<Rightarrow> world \<Rightarrow> tick \<Rightarrow> fault + string list" where
  "draw_status_small readouts i w t =
     (if i < 2 then
        (case readout_at readouts (i + 1) of
           Inl f \<Rightarrow> Inl f
         | Inr readout \<Rightarrow>
             (case call_print (print_func readout) w t of
                Inl f \<Rightarrow> Inl f
              | Inr buf \<Rightarrow>
                  (case draw_status_small readouts (i + 1) w t of
                     Inl f \<Rightarrow> Inl f
                   | Inr drawn \<Rightarrow>
                       Inr ((if length buf = 5 then strcat buf '' '' else buf) # drawn))))
      else Inr [])"
  by pat_completeness auto
termination
  by (relation "measure (\<lambda>(readouts, i, w, t). nat (2 - i))") auto

declare draw_status_small.simps [simp del]

text \<open>
  \<open>draw_status\<close>: the texts drawn (the main readout, the label, the two smaller
  readouts), or the fault of a call. The main readout is called unless its function is
  \<open>print_nothing\<close>.
\<close>

definition draw_status :: "readout_function list \<Rightarrow> world \<Rightarrow> tick \<Rightarrow> fault + string list" where
  "draw_status readouts w t =
     (case readout_at readouts 0 of
        Inl f \<Rightarrow> Inl f
      | Inr readout \<Rightarrow>
          (case (if print_func readout \<noteq> Print_nothing then
                   (case call_print (print_func readout) w t of
                      Inl f \<Rightarrow> Inl f
                    | Inr buf \<Rightarrow> Inr [strcat buf '' ''])
                 else Inr []) of
             Inl f \<Rightarrow> Inl f
           | Inr big \<Rightarrow>
               (case draw_status_small readouts 0 w t of
                  Inl f \<Rightarrow> Inl f
                | Inr small \<Rightarrow> Inr (big @ [label readout] @ small))))"

section \<open>The screens (ui.c)\<close>

subsection \<open>cc_load\<close>

text \<open>
  The \<open>while(1)\<close> loop of \<open>cc_load\<close>. The case \<open>UI_EVENT_BUTTONPRESS\<close> has no \<open>break\<close>:
  when the argument is not 1 control runs on into the case \<open>UI_EVENT_UPDOWN\<close>. Every
  cycle that does not return ends with \<open>draw_status(&display_settings.cc)\<close>, on the
  store as the cycle left it; a fault of that call ends the screen.
\<close>

fun cc_load_loop :: "ui_event \<Rightarrow> world \<Rightarrow> tick list \<Rightarrow> state_func outcome" where
  "cc_load_loop event0 w [] = Blocked w"
| "cc_load_loop event0 w (t # ts) =
     (let event = next_event event0 t in
      case ev_type event of
        UI_EVENT_BUTTONPRESS \<Rightarrow>
          if int_arg event = 1 then Returned STATE_MAIN_MENU w ts
          else
            (let w' = adjust_current_setpoint (int_arg event) w in
             case draw_status (display_settings_cc w') w' t of
               Inl f \<Rightarrow> Fault f
             | Inr drawn \<Rightarrow> cc_load_loop event w' ts)
      | UI_EVENT_UPDOWN \<Rightarrow>
          (let w' = adjust_current_setpoint (int_arg event) w in
           case draw_status (display_settings_cc w') w' t of
             Inl f \<Rightarrow> Fault f
           | Inr drawn \<Rightarrow> cc_load_loop event w' ts)
      | UI_EVENT_OVERTEMP \<Rightarrow> Returned STATE_OVERTEMP w ts
      | _ \<Rightarrow>
          (case draw_status (display_settings_cc w) w t of
             Inl f \<Rightarrow> Fault f
           | Inr drawn \<Rightarrow> cc_load_loop event w ts))"

definition cc_load :: "world \<Rightarrow> tick list \<Rightarrow> state_func outcome" where
  "cc_load w ts = cc_load_loop fresh_event w ts"

subsection \<open>menu\<close>

text \<open>
  The loop \<open>for(int i = 0; i < event.int_arg; i++)\<close> that moves the selection down, with
  its \<open>break\<close> at an item whose successor has no caption.
\<close>

function menu_walk :: "menuitem list \<Rightarrow> int \<Rightarrow> int \<Rightarrow> int \<Rightarrow> fault + int" where
  "menu_walk its i n selected =
     (if i < n then
        (case array_at its (selected + 1) of
           None \<Rightarrow> Inl IndexOutOfBounds
         | Some it \<Rightarrow>
             if caption it = None then Inr selected
             else menu_walk its (i + 1) n (selected + 1))
      else Inr selected)"
  by pat_completeness auto
termination
  by (relation "measure (\<lambda>(its, i, n, selected). nat (n - i))") auto

declare menu_walk.simps [simp del]

definition menu_updown :: "menuitem list \<Rightarrow> int \<Rightarrow> int \<Rightarrow> fault + int" where
  \<comment> \<open>The case \<open>UI_EVENT_UPDOWN\<close> of the menu: the new selection.\<close>
  "menu_updown its selected d =
     (if d < 0 then
        (if selected + d \<ge> 0 then Inr (selected + d) else Inr 0)
      else menu_walk its 0 d selected)"

fun menu_loop :: "menudata \<Rightarrow> int \<Rightarrow> ui_event \<Rightarrow> world \<Rightarrow> tick list \<Rightarrow> state_func outcome" where
  "menu_loop m selected event0 w [] =
     (if waiting event0 then Blocked w
      else (case array_at (items m) selected of
              None \<Rightarrow> Fault IndexOutOfBounds
            | Some it \<Rightarrow> Returned (new_state it) w []))"
| "menu_loop m selected event0 w (t # ts) =
     (if waiting event0 then
        (let event = next_event event0 t in
         case ev_type event of
           UI_EVENT_UPDOWN \<Rightarrow>
             (case menu_updown (items m) selected (int_arg event) of
                Inl f \<Rightarrow> Fault f
              | Inr selected' \<Rightarrow> menu_loop m selected' event w ts)
         | UI_EVENT_OVERTEMP \<Rightarrow> Returned STATE_OVERTEMP w ts
         | _ \<Rightarrow> menu_loop m selected event w ts)
      else (case array_at (items m) selected of
              None \<Rightarrow> Fault IndexOutOfBounds
            | Some it \<Rightarrow> Returned (new_state it) w (t # ts)))"

definition menu :: "menudata \<Rightarrow> world \<Rightarrow> tick list \<Rightarrow> state_func outcome" where
  "menu m w ts = menu_loop m 0 fresh_event w ts"

subsection \<open>display_config\<close>

definition display_config :: "pointer \<Rightarrow> world \<Rightarrow> tick list \<Rightarrow> state_func outcome" where
  "display_config config w ts =
     (case menu choose_readout_menu w ts of
        Blocked w' \<Rightarrow> Blocked w'
      | Fault f \<Rightarrow> Fault f
      | Returned display w1 ts1 \<Rightarrow>
          if func display = Fn_overtemp then Returned display w1 ts1
          else
            (case menu set_readout_menu w1 ts1 of
               Blocked w' \<Rightarrow> Blocked w'
             | Fault f \<Rightarrow> Fault f
             | Returned readout w2 ts2 \<Rightarrow>
                 if func readout = Fn_overtemp then Returned readout w2 ts2
                 else
                   (case (config, arg display, arg readout) of
                      (Ptr_display_settings_cc, Ptr_int slot, Ptr_int r) \<Rightarrow>
                        (case EEPROM_Write_readout slot r w2 of
                           Inl f \<Rightarrow> Fault f
                         | Inr w3 \<Rightarrow> Returned STATE_MAIN w3 ts2)
                    | _ \<Rightarrow> Fault BadArgument)))"

subsection \<open>set_contrast\<close>

fun set_contrast_loop :: "int \<Rightarrow> ui_event \<Rightarrow> world \<Rightarrow> tick list \<Rightarrow> state_func outcome" where
  "set_contrast_loop contrast event0 w [] = Blocked w"
| "set_contrast_loop contrast event0 w (t # ts) =
     (let event = next_event event0 t in
      case ev_type event of
        UI_EVENT_UPDOWN \<Rightarrow>
          (let c = contrast + int_arg event;
               c' = (if c > 0x3F then 0x3F else if c < 0 then 0 else c)
           in set_contrast_loop c' event (w\<lparr>display_contrast := c'\<rparr>) ts)
      | UI_EVENT_BUTTONPRESS \<Rightarrow>
          if int_arg event = 1 then Returned STATE_MAIN (EEPROM_Write_lcd_contrast contrast w) ts
          else set_contrast_loop contrast event w ts
      | UI_EVENT_OVERTEMP \<Rightarrow> Returned STATE_OVERTEMP w ts
      | _ \<Rightarrow> set_contrast_loop contrast event w ts)"

definition set_contrast :: "world \<Rightarrow> tick list \<Rightarrow> state_func outcome" where
  "set_contrast w ts = set_contrast_loop (lcd_contrast (settings w)) fresh_event w ts"

subsection \<open>overtemp\<close>

fun overtemp_loop :: "ui_event \<Rightarrow> world \<Rightarrow> tick list \<Rightarrow> state_func outcome" where
  "overtemp_loop event0 w [] =
     (if waiting event0 then Blocked w
      else Returned STATE_MAIN (set_output_mode OUTPUT_MODE_FEEDBACK (set_current 0 w)) [])"
| "overtemp_loop event0 w (t # ts) =
     (if waiting event0 then
        (let event = next_event event0 t in
         if mode_reading t = OUTPUT_MODE_FEEDBACK then Returned STATE_MAIN w ts
         else overtemp_loop event w ts)
      else Returned STATE_MAIN (set_output_mode OUTPUT_MODE_FEEDBACK (set_current 0 w)) (t # ts))"

definition overtemp :: "world \<Rightarrow> tick list \<Rightarrow> state_func outcome" where
  "overtemp w ts = overtemp_loop fresh_event w ts"

subsection \<open>splashscreen\<close>

definition splashscreen :: "world \<Rightarrow> tick list \<Rightarrow> state_func outcome" where
  "splashscreen w ts = Returned STATE_CC_LOAD w ts"

subsection \<open>calibrate\<close>

text \<open>
  Step 1, \<open>calibrate_offsets\<close>. The event's type is \<open>UI_EVENT_NONE\<close> on entry, so the
  loop \<open>while(...) next_event(&event)\<close> makes its first call before any test can fail;
  the sensors are read in the cycle of the event that ends the wait.
\<close>

fun calibrate_offsets_loop :: "ui_event \<Rightarrow> settings_t \<Rightarrow> world \<Rightarrow> tick list \<Rightarrow> settings_t outcome" where
  "calibrate_offsets_loop event0 new_settings w [] = Blocked w"
| "calibrate_offsets_loop event0 new_settings w (t # ts) =
     (let event = next_event event0 t in
      if waiting event then calibrate_offsets_loop event new_settings w ts
      else Returned (new_settings\<lparr>adc_voltage_offset := raw_voltage t,
                                  adc_current_offset := raw_current_usage t\<rparr>) w ts)"

definition calibrate_offsets :: "settings_t \<Rightarrow> world \<Rightarrow> tick list \<Rightarrow> settings_t outcome" where
  "calibrate_offsets new_settings w ts = calibrate_offsets_loop fresh_event new_settings w ts"

text \<open>Step 2, \<open>calibrate_voltage\<close>; the value it formats goes to the display only.\<close>

fun calibrate_voltage_loop :: "ui_event \<Rightarrow> settings_t \<Rightarrow> world \<Rightarrow> tick list \<Rightarrow> settings_t outcome" where
  "calibrate_voltage_loop event0 new_settings w [] =
     (if waiting event0 then Blocked w else Returned new_settings w [])"
| "calibrate_voltage_loop event0 new_settings w (t # ts) =
     (if waiting event0 then
        (let event = next_event event0 t in
         case ev_type event of
           UI_EVENT_UPDOWN \<Rightarrow>
             calibrate_voltage_loop event
               (new_settings\<lparr>adc_voltage_gain :=
                  adc_voltage_gain new_settings
                  + c_div (adc_voltage_gain new_settings * int_arg event) 500\<rparr>) w ts
         | _ \<Rightarrow> calibrate_voltage_loop event new_settings w ts)
      else Returned new_settings w (t # ts))"

definition calibrate_voltage :: "settings_t \<Rightarrow> world \<Rightarrow> tick list \<Rightarrow> settings_t outcome" where
  "calibrate_voltage new_settings w ts = calibrate_voltage_loop fresh_event new_settings w ts"

text \<open>
  Step 3, \<open>calibrate_opamp_dac_offsets\<close>. \<open>adc i ch\<close> is what \<open>ADC_GetResult16(ch)\<close>
  returns while the trim register holds \<open>i\<close>; the two 16-bit results are subtracted as
  \<open>int\<close>. The sweep is the loop \<open>for(int i = 0; i < 32; i++)\<close> with its \<open>break\<close>.
\<close>

function opamp_sweep :: "(int \<Rightarrow> adc_channel \<Rightarrow> int) \<Rightarrow> int \<Rightarrow> settings_t \<Rightarrow> world \<Rightarrow> settings_t \<times> world" where
  "opamp_sweep adc i new_settings w =
     (if i < 32 then
        (let w' = w\<lparr>opamp_trim_reg := i\<rparr>;
             offset = adc i ADC_CHAN_CURRENT_SENSE - adc i ADC_CHAN_CURRENT_SET
         in if offset \<le> 0 then (new_settings\<lparr>opamp_offset_trim := i - 1\<rparr>, w')
            else opamp_sweep adc (i + 1) new_settings w')
      else (new_settings, w))"
  by pat_completeness auto
termination
  by (relation "measure (\<lambda>(adc, i, new_settings, w). nat (32 - i))") auto

declare opamp_sweep.simps [simp del]

definition calibrate_opamp_dac_offsets ::
    "(int \<Rightarrow> adc_channel \<Rightarrow> int) \<Rightarrow> settings_t \<Rightarrow> world \<Rightarrow> settings_t \<times> world" where
  "calibrate_opamp_dac_offsets adc new_settings w =
     (let (s, w') = opamp_sweep adc 0 new_settings (set_current 100000 w)
      in (s, set_current 0 w'))"

text \<open>Step 4, \<open>calibrate_current\<close>: its body beyond the drawing calls is commented out.\<close>

definition calibrate_current :: "settings_t \<Rightarrow> world \<Rightarrow> settings_t \<times> world" where
  "calibrate_current new_settings w = (new_settings, w)"

definition calibrate :: "(int \<Rightarrow> adc_channel \<Rightarrow> int) \<Rightarrow> world \<Rightarrow> tick list \<Rightarrow> state_func outcome" where
  "calibrate adc w ts =
     (let w0 = set_current 0 w;
          new_settings = settings w0
      in case calibrate_offsets new_settings w0 ts of
           Blocked w' \<Rightarrow> Blocked w'
         | Fault f \<Rightarrow> Fault f
         | Returned s1 w1 ts1 \<Rightarrow>
             (case calibrate_voltage s1 w1 ts1 of
                Blocked w' \<Rightarrow> Blocked w'
              | Fault f \<Rightarrow> Fault f
              | Returned s2 w2 ts2 \<Rightarrow>
                  (let (s3, w3) = calibrate_opamp_dac_offsets adc s2 w2;
                       (s4, w4) = calibrate_current s3 w3
                   in Returned \<lparr>func = Fn_NULL, arg = Ptr_int 0, is_main_state = 0\<rparr>
                        (EEPROM_Write_settings s4 w4) ts2)))"

section \<open>The UI task (ui.c, vTaskUI)\<close>

definition menudata_at :: "pointer \<Rightarrow> menudata option" where
  "menudata_at p =
     (case p of
        Ptr_set_readout_menu \<Rightarrow> Some set_readout_menu
      | Ptr_choose_readout_menu \<Rightarrow> Some choose_readout_menu
      | Ptr_main_menu \<Rightarrow> Some main_menu
      | _ \<Rightarrow> None)"

text \<open>The call \<open>state.func(state.arg)\<close>.\<close>

definition call_state ::
    "(int \<Rightarrow> adc_channel \<Rightarrow> int) \<Rightarrow> state_func \<Rightarrow> world \<Rightarrow> tick list \<Rightarrow> state_func outcome" where
  "call_state adc st w ts =
     (case func st of
        Fn_NULL \<Rightarrow> Fault NullHandler
      | Fn_cc_load \<Rightarrow> cc_load w ts
      | Fn_menu \<Rightarrow>
          (case menudata_at (arg st) of
             None \<Rightarrow> Fault BadArgument
           | Some m \<Rightarrow> menu m w ts)
      | Fn_calibrate \<Rightarrow> calibrate adc w ts
      | Fn_display_config \<Rightarrow> display_config (arg st) w ts
      | Fn_set_contrast \<Rightarrow> set_contrast w ts
      | Fn_overtemp \<Rightarrow> overtemp w ts
      | Fn_splashscreen \<Rightarrow> splashscreen w ts)"

text \<open>
  What one iteration of the task's loop does with the descriptor the screen returned:
  the new \<open>state\<close> and \<open>main_state\<close>.
\<close>

definition vTaskUI_update :: "state_func \<times> state_func \<Rightarrow> state_func \<Rightarrow> state_func \<times> state_func" where
  "vTaskUI_update sm new_st =
     (let (st, main_state) = sm;
          st' = (if func new_st = Fn_NULL then main_state else new_st);
          main_state' = (if is_main_state st' \<noteq> 0 then st' else main_state)
      in (st', main_state'))"

text \<open>
  The loop \<open>while(1)\<close> of the task never ends; \<open>vTaskUI_loop n\<close> runs \<open>n\<close> iterations
  of it and returns the two descriptors it then holds.
\<close>

fun vTaskUI_loop ::
    "nat \<Rightarrow> (int \<Rightarrow> adc_channel \<Rightarrow> int) \<Rightarrow> state_func \<times> state_func \<Rightarrow> world \<Rightarrow> tick list
       \<Rightarrow> (state_func \<times> state_func) outcome" where
  "vTaskUI_loop 0 adc sm w ts = Returned sm w ts"
| "vTaskUI_loop (Suc n) adc sm w ts =
     (case call_state adc (fst sm) w ts of
        Blocked w' \<Rightarrow> Blocked w'
      | Fault f \<Rightarrow> Fault f
      | Returned new_st w' ts' \<Rightarrow> vTaskUI_loop n adc (vTaskUI_update sm new_st) w' ts')"

definition vTaskUI ::
    "bool \<Rightarrow> nat \<Rightarrow> (int \<Rightarrow> adc_channel \<Rightarrow> int) \<Rightarrow> world \<Rightarrow> tick list
       \<Rightarrow> (state_func \<times> state_func) outcome" where
  \<comment> \<open>\<open>use_splashscreen\<close> is the macro \<open>USE_SPLASHSCREEN\<close>, defined outside debug builds.\<close>
  "vTaskUI use_splashscreen n adc w ts =
     vTaskUI_loop n adc
       (if use_splashscreen then STATE_SPLASHSCREEN else STATE_CC_LOAD, STATE_CC_LOAD) w ts"

section \<open>Notions used in the statements\<close>

text \<open>What a tick delivers: an event of a given type, and the event's argument.\<close>

definition delivers :: "ui_event_type \<Rightarrow> tick \<Rightarrow> bool" where
  "delivers k t = (case received t of None \<Rightarrow> False | Some e \<Rightarrow> ev_type e = k)"

definition delivered_arg :: "tick \<Rightarrow> int" where
  "delivered_arg t = (case received t of None \<Rightarrow> 0 | Some e \<Rightarrow> int_arg e)"

text \<open>The number of items of a menu before its first item without a caption.\<close>

definition menu_size :: "menuitem list \<Rightarrow> nat" where
  "menu_size its = length (takeWhile (\<lambda>it. caption it \<noteq> None) its)"

text \<open>The selection after a sequence of \<open>UP_DOWN\<close> arguments, from a given selection.\<close>

fun menu_selected :: "menuitem list \<Rightarrow> int \<Rightarrow> int list \<Rightarrow> fault + int" where
  "menu_selected its selected [] = Inr selected"
| "menu_selected its selected (d # ds) =
     (case menu_updown its selected d of
        Inl f \<Rightarrow> Inl f
      | Inr selected' \<Rightarrow> menu_selected its selected' ds)"

text \<open>
  The move of the selection as the specification words it, in a menu of \<open>n\<close> items: a
  negative delta moves up and clamps at 0, any other delta walks forward and stops at the
  last item.
\<close>

definition menu_move :: "nat \<Rightarrow> int \<Rightarrow> int \<Rightarrow> int" where
  "menu_move n selected d =
     (if d < 0 then max 0 (selected + d) else min (selected + d) (int n - 1))"

text \<open>
  The rest of a cycle of the CC-load screen that did not return: \<open>draw_status\<close>, and
  then the screen goes on from the store it was given.
\<close>

definition cc_load_rest :: "world \<Rightarrow> tick \<Rightarrow> tick list \<Rightarrow> state_func outcome" where
  "cc_load_rest w t ts =
     (case draw_status (display_settings_cc w) w t of
        Inl f \<Rightarrow> Fault f
      | Inr drawn \<Rightarrow> cc_load w ts)"

text \<open>A tick that ends the overtemp screen: the mode reads FEEDBACK, or button 1 arrives.\<close>

definition ends_overtemp :: "tick \<Rightarrow> bool" where
  "ends_overtemp t \<longleftrightarrow>
     mode_reading t = OUTPUT_MODE_FEEDBACK
     \<or> (delivers UI_EVENT_BUTTONPRESS t \<and> delivered_arg t = 1)"

text \<open>The residual of calibration step 3 at trim setting \<open>i\<close>.\<close>

definition residual :: "(int \<Rightarrow> adc_channel \<Rightarrow> int) \<Rightarrow> int \<Rightarrow> int" where
  "residual adc i = adc i ADC_CHAN_CURRENT_SENSE - adc i ADC_CHAN_CURRENT_SET"

text \<open>What is persisted: the settings, the display configuration, the log of writes.\<close>

definition persisted :: "world \<Rightarrow> settings_t \<times> readout_function list \<times> eeprom_write list" where
  "persisted w = (settings w, display_settings_cc w, eeprom_log w)"

text \<open>Concrete inputs: the default settings of \<open>config.h\<close>, a store, ticks, ADC results.\<close>

definition example_settings :: settings_t where
  "example_settings =
     \<lparr>dac_low_gain = 186, dac_high_gain = 21157, dac_low_offset = 0, dac_high_offset = 0,
      opamp_offset_trim = 0x24, adc_current_offset = - 35, adc_current_gain = 599,
      adc_voltage_offset = 0, adc_voltage_gain = 2008, backlight_brightness = 63,
      lcd_contrast = 40\<rparr>"

definition example_world :: world where
  "example_world =
     \<lparr>state = \<lparr>current_setpoint = 0, current_range = 0\<rparr>, output_mode = OUTPUT_MODE_ON,
      settings = example_settings,
      display_settings_cc = [READOUT_CURRENT_SETPOINT, READOUT_CURRENT_USAGE, READOUT_VOLTAGE],
      eeprom_log = [], opamp_trim_reg = 0, display_contrast = 40\<rparr>"

text \<open>The same store with the resistance as the third readout of the CC-load screen.\<close>

definition resistance_world :: world where
  "resistance_world =
     example_world\<lparr>display_settings_cc :=
       [READOUT_CURRENT_SETPOINT, READOUT_CURRENT_USAGE, READOUT_RESISTANCE]\<rparr>"

definition queued :: "ui_event_type \<Rightarrow> int \<Rightarrow> tick" where
  \<comment> \<open>A tick that delivers an event from the queue; raw voltage 7 and raw current -3.\<close>
  "queued k n =
     \<lparr>received = Some \<lparr>ev_type = k, ev_when = 0, int_arg = n\<rparr>, tick_count = 0,
      mode_reading = OUTPUT_MODE_OFF, raw_voltage = 7, raw_current_usage = - 3\<rparr>"

definition adc_zero :: "int \<Rightarrow> adc_channel \<Rightarrow> int" where
  \<comment> \<open>Every channel reads 0 at every trim setting.\<close>
  "adc_zero i ch = 0"

definition adc_ramp :: "int \<Rightarrow> adc_channel \<Rightarrow> int" where
  \<comment> \<open>The sense channel reads \<open>5 - i\<close> at trim setting \<open>i\<close>, the other channels 0.\<close>
  "adc_ramp i ch = (if ch = ADC_CHAN_CURRENT_SENSE then 5 - i else 0)"

definition adc_high :: "int \<Rightarrow> adc_channel \<Rightarrow> int" where
  \<comment> \<open>The sense channel reads 9 at every trim setting, the other channels 0.\<close>
  "adc_high i ch = (if ch = ADC_CHAN_CURRENT_SENSE then 9 else 0)"

section \<open>Properties of the formatter\<close>

lemma c_div_nonneg: "0 \<le> a \<Longrightarrow> 0 < b \<Longrightarrow> c_div a b = a div b"
  by (cases "a = 0") (simp_all add: c_div_def)

lemma c_mod_nonneg: "0 \<le> a \<Longrightarrow> 0 < b \<Longrightarrow> c_mod a b = a mod b"
  by (simp add: c_mod_def c_div_nonneg minus_mult_div_eq_mod)

lemma scale_loop_range:
  "0 \<le> num \<Longrightarrow> 0 \<le> fst (scale_loop num m) \<and> fst (scale_loop num m) < 1000000"
proof (induction num m rule: scale_loop.induct)
  case (1 num magnitude)
  show ?case
  proof (cases "num \<ge> 1000000")
    case True
    then have "0 \<le> c_div num 1000" by (simp add: c_div_nonneg)
    with "1.IH" True show ?thesis by (simp add: scale_loop.simps [of num])
  next
    case False
    with "1.prems" show ?thesis by (simp add: scale_loop.simps [of num])
  qed
qed

lemma length_dec_digits_1: "n < 10 \<Longrightarrow> length (dec_digits n) = 1"
  by (simp add: dec_digits.simps)

lemma length_dec_digits_2: "10 \<le> n \<Longrightarrow> n < 100 \<Longrightarrow> length (dec_digits n) = 2"
  by (subst dec_digits.simps) (simp add: length_dec_digits_1)

lemma length_dec_digits_3: "100 \<le> n \<Longrightarrow> n < 1000 \<Longrightarrow> length (dec_digits n) = 3"
  by (subst dec_digits.simps) (simp add: length_dec_digits_2)

lemma length_sprintf_1d: "0 \<le> n \<Longrightarrow> n < 10 \<Longrightarrow> length (sprintf_d z (Suc 0) n) = Suc 0"
  by (simp add: sprintf_d_def Let_def length_dec_digits_1)

lemma length_sprintf_02d: "0 \<le> n \<Longrightarrow> n < 100 \<Longrightarrow> length (sprintf_d True 2 n) = 2"
proof (cases "n < 10")
  case True
  assume "0 \<le> n"
  with True show ?thesis by (simp add: sprintf_d_def Let_def length_dec_digits_1)
next
  case False
  assume "n < 100"
  with False show ?thesis by (simp add: sprintf_d_def Let_def length_dec_digits_2)
qed

lemma length_sprintf_03d: "100 \<le> n \<Longrightarrow> n < 1000 \<Longrightarrow> length (sprintf_d True 3 n) = 3"
  by (simp add: sprintf_d_def Let_def length_dec_digits_3)

lemma length_strcat_milli:
  "s \<noteq> CHR 0x00 \<Longrightarrow> length (strcat out [CHR ''m'', s, CHR 0x00]) = length out + 2"
  by (simp add: strcat_def)

lemma length_strcat_unit:
  "s \<noteq> CHR 0x00 \<Longrightarrow> length (strcat out [s, CHR '' '', CHR 0x00]) = length out + 2"
  by (simp add: strcat_def)

text \<open>
  C2 (as the code has it). For a value \<open>v \<ge> 0\<close> and a suffix character other than NUL,
  \<open>format_number\<close> writes six characters when the scaled whole part is below 100 (the
  layouts \<open>d.dd\<close> and \<open>dd.d\<close>), and five characters when the whole part has three
  digits (the layout \<open>ddd\<close>): the six-character envelope does not hold for three-digit
  whole parts.
\<close>

theorem format_number_length:
  assumes "0 \<le> v" and "s \<noteq> CHR 0x00"
  shows "length (format_number v s) = (if whole_part v < 100 then 6 else 5)"
proof -
  obtain num mag where sl: "scale_loop v 1 = (num, mag)" by (cases "scale_loop v 1")
  from scale_loop_range [OF assms(1), of 1] sl have rng: "0 \<le> num" "num < 1000000" by simp_all
  define whole where "whole = c_div num 1000"
  define remainder where "remainder = c_mod num 1000"
  have w: "0 \<le> whole" "whole < 1000" using rng by (simp_all add: whole_def c_div_nonneg)
  have r: "0 \<le> remainder" "remainder < 1000" using rng by (simp_all add: remainder_def c_mod_nonneg)
  have r10: "0 \<le> c_div remainder 10" "c_div remainder 10 < 100"
    using r by (simp_all add: c_div_nonneg)
  have r100: "0 \<le> c_div remainder 100" "c_div remainder 100 < 10"
    using r by (simp_all add: c_div_nonneg)
  have wp: "whole_part v = whole" using assms(1) sl by (simp add: whole_part_def whole_def)
  define out where "out = (if whole < 10 then
                   sprintf_d False 1 whole @ ''.'' @ sprintf_d True 2 (c_div remainder 10)
                 else if whole < 100 then
                   sprintf_d True 2 whole @ ''.'' @ sprintf_d False 1 (c_div remainder 100)
                 else sprintf_d True 3 whole)"
  have lo: "length out = (if whole < 100 then 4 else 3)"
    using w r10 r100
    by (simp add: out_def length_sprintf_1d length_sprintf_02d length_sprintf_03d)
  have fn: "format_number v s = (if mag = 1 then strcat out [CHR ''m'', s, CHR 0x00]
         else strcat out [s, CHR '' '', CHR 0x00])"
    using assms(1) sl by (simp add: format_number_def Let_def whole_def remainder_def out_def)
  show ?thesis
    using lo assms(2) by (simp add: fn wp length_strcat_milli length_strcat_unit)
qed

theorem format_number_length_witness:
  "(0::int) \<le> 1234 \<and> CHR ''A'' \<noteq> CHR 0x00 \<and> whole_part 1234 = 1
   \<and> length (format_number 1234 (CHR ''A'')) = 6
   \<and> whole_part 123456789 = 123
   \<and> length (format_number 123456789 (CHR ''V'')) = 5"
proof -
  have a: "(0::int) \<le> 1234" "(0::int) \<le> 123456789" by simp_all
  have b: "CHR ''A'' \<noteq> CHR 0x00" "CHR ''V'' \<noteq> CHR 0x00" by simp_all
  have c: "whole_part 1234 = 1" "whole_part 123456789 = 123"
    by (simp_all add: whole_part_def scale_loop.simps c_div_def)
  show ?thesis
    using format_number_length [OF a(1) b(1)] format_number_length [OF a(2) b(2)] c by simp
qed

text \<open>
  C2 (as stated) fails: 100000 micro-units with suffix \<open>A\<close> are written as the five
  characters \<open>100mA\<close>. And with the NUL character for a suffix \<open>strcat\<close> stops at it:
  1234 is written as the five characters \<open>1.23m\<close>.
\<close>

theorem format_number_length_counterexample:
  "(0::int) \<le> 100000 \<and> format_number 100000 (CHR ''A'') = ''100mA''
   \<and> length (format_number 100000 (CHR ''A'')) \<noteq> 6
   \<and> (0::int) \<le> 1234 \<and> format_number 1234 (CHR 0x00) = ''1.23m''
   \<and> length (format_number 1234 (CHR 0x00)) \<noteq> 6"
  by code_simp

section \<open>Properties of the resistance readout\<close>

lemma print_resistance_fault:
  "print_resistance ohm voltage current = Inl f
     \<longleftrightarrow> f = DivideByZero \<and> 0 < current \<and> current < 100000"
proof (cases "0 < current")
  case False
  then show ?thesis by (simp add: print_resistance_def)
next
  case True
  then have eq: "c_div current 100000 = current div 100000" by (simp add: c_div_nonneg)
  have "current div 100000 = 0 \<longleftrightarrow> current < 100000" using True
    by arith
  with True eq show ?thesis
    by (auto simp: print_resistance_def c_div_checked_def)
qed

lemma print_resistance_value:
  "100000 \<le> current \<Longrightarrow>
     print_resistance ohm voltage current =
       Inr (format_number (c_div (voltage * 10) (c_div current 100000)) ohm)"
  using print_resistance_fault [of ohm voltage current DivideByZero]
  by (auto simp: print_resistance_def c_div_checked_def)

lemma print_resistance_sentinel:
  "current \<le> 0 \<Longrightarrow> print_resistance ohm voltage current = Inr (''----'' @ [ohm])"
  by (simp add: print_resistance_def)

text \<open>
  C5. The readout is the quotient of \<open>voltage * 10\<close> by \<open>current / 100000\<close> for
  every current usage above 0, and the sentinel otherwise. The code does not keep this:
  at a current usage of 50000 (with 5000000 for the voltage) the guard \<open>current > 0\<close>
  passes, the divisor \<open>50000 / 100000\<close> is 0, and the readout divides by zero. By
  \<open>print_resistance_fault\<close> this happens for every current usage from 1 to 99999.
\<close>

theorem print_resistance_divides_by_zero:
  "(0::int) < 50000 \<and> c_div 50000 100000 = 0
   \<and> print_resistance (CHR ''R'') 5000000 50000 = Inl DivideByZero"
  by (simp add: print_resistance_def c_div_checked_def c_div_def)

section \<open>Properties of calibration step 3\<close>

lemma opamp_sweep_found:
  "k \<le> i \<Longrightarrow> i < 32 \<Longrightarrow> residual adc i \<le> 0
     \<Longrightarrow> (\<forall>j. k \<le> j \<and> j < i \<longrightarrow> 0 < residual adc j)
     \<Longrightarrow> fst (opamp_sweep adc k s w) = s\<lparr>opamp_offset_trim := i - 1\<rparr>"
proof (induction adc k s w rule: opamp_sweep.induct)
  case (1 adc k s w)
  show ?case
  proof (cases "k = i")
    case True
    with "1.prems" show ?thesis
      by (subst opamp_sweep.simps) (simp add: residual_def Let_def)
  next
    case False
    with "1.prems" have lt: "k < i" "k < 32" "0 < residual adc k" by auto
    with "1.prems"
    have "fst (opamp_sweep adc (k + 1) s (w\<lparr>opamp_trim_reg := k\<rparr>))
            = s\<lparr>opamp_offset_trim := i - 1\<rparr>"
      by (intro "1.IH") (auto simp: residual_def)
    with lt show ?thesis
      by (simp add: opamp_sweep.simps [of adc k] residual_def Let_def)
  qed
qed

lemma opamp_sweep_not_found:
  "(\<forall>j. k \<le> j \<and> j < 32 \<longrightarrow> 0 < residual adc j) \<Longrightarrow> fst (opamp_sweep adc k s w) = s"
proof (induction adc k s w rule: opamp_sweep.induct)
  case (1 adc k s w)
  show ?case
  proof (cases "k < 32")
    case False
    then show ?thesis by (simp add: opamp_sweep.simps [of adc k])
  next
    case True
    with "1.prems" have pos: "0 < residual adc k" by simp
    with True "1.prems" have "fst (opamp_sweep adc (k + 1) s (w\<lparr>opamp_trim_reg := k\<rparr>)) = s"
      by (intro "1.IH") (auto simp: residual_def)
    with True pos show ?thesis
      by (simp add: opamp_sweep.simps [of adc k] residual_def Let_def)
  qed
qed

lemma fst_calibrate_opamp_dac_offsets:
  "fst (calibrate_opamp_dac_offsets adc s w) = fst (opamp_sweep adc 0 s (set_current 100000 w))"
  by (simp add: calibrate_opamp_dac_offsets_def split_beta)

lemma residual_adc_ramp: "residual adc_ramp i = 5 - i"
  by (simp add: residual_def adc_ramp_def)

lemma residual_adc_high: "residual adc_high i = 9"
  by (simp add: residual_def adc_high_def)

text \<open>
  C9 (as the code has it). After calibration step 3 the scratch settings differ from
  those before it in \<open>opamp_offset_trim\<close> at most. When \<open>i\<close> is the first setting of
  0..31 whose residual is at most 0, and \<open>i \<ge> 1\<close>, the field is \<open>i - 1\<close>, a value in
  0..30. When no setting has such a residual, the field is what the scratch copy held,
  in 0..31 or not. (A residual at most 0 at setting 0 is left out of this statement: see
  the lemma \<open>opamp_sweep_found\<close> and the counterexample.)
\<close>

theorem opamp_trim_after_sweep:
  "(\<forall>i. 1 \<le> i \<and> i < 32 \<and> residual adc i \<le> 0 \<and> (\<forall>j. 0 \<le> j \<and> j < i \<longrightarrow> 0 < residual adc j)
        \<longrightarrow> fst (calibrate_opamp_dac_offsets adc s w) = s\<lparr>opamp_offset_trim := i - 1\<rparr>
            \<and> 0 \<le> opamp_offset_trim (fst (calibrate_opamp_dac_offsets adc s w))
            \<and> opamp_offset_trim (fst (calibrate_opamp_dac_offsets adc s w)) \<le> 30)
   \<and> ((\<forall>i. 0 \<le> i \<and> i < 32 \<longrightarrow> 0 < residual adc i)
        \<longrightarrow> fst (calibrate_opamp_dac_offsets adc s w) = s)"
proof (intro conjI allI impI)
  fix i
  assume a: "1 \<le> i \<and> i < 32 \<and> residual adc i \<le> 0 \<and> (\<forall>j. 0 \<le> j \<and> j < i \<longrightarrow> 0 < residual adc j)"
  then have e: "fst (calibrate_opamp_dac_offsets adc s w) = s\<lparr>opamp_offset_trim := i - 1\<rparr>"
    by (auto simp: fst_calibrate_opamp_dac_offsets intro: opamp_sweep_found)
  then show "fst (calibrate_opamp_dac_offsets adc s w) = s\<lparr>opamp_offset_trim := i - 1\<rparr>" .
  from a e show "0 \<le> opamp_offset_trim (fst (calibrate_opamp_dac_offsets adc s w))" by simp
  from a e show "opamp_offset_trim (fst (calibrate_opamp_dac_offsets adc s w)) \<le> 30" by simp
next
  assume "\<forall>i. 0 \<le> i \<and> i < 32 \<longrightarrow> 0 < residual adc i"
  then show "fst (calibrate_opamp_dac_offsets adc s w) = s"
    by (auto simp: fst_calibrate_opamp_dac_offsets intro: opamp_sweep_not_found)
qed

theorem opamp_trim_after_sweep_witness:
  "residual adc_ramp 5 \<le> 0 \<and> 0 < residual adc_ramp 4
   \<and> opamp_offset_trim
        (fst (calibrate_opamp_dac_offsets adc_ramp example_settings example_world)) = 4
   \<and> 0 < residual adc_high 31
   \<and> opamp_offset_trim
        (fst (calibrate_opamp_dac_offsets adc_high example_settings example_world)) = 0x24"
proof -
  from opamp_trim_after_sweep [of adc_ramp example_settings example_world]
  have "1 \<le> (5::int) \<and> (5::int) < 32 \<and> residual adc_ramp 5 \<le> 0
          \<and> (\<forall>j. 0 \<le> j \<and> j < 5 \<longrightarrow> 0 < residual adc_ramp j)
        \<longrightarrow> fst (calibrate_opamp_dac_offsets adc_ramp example_settings example_world)
              = example_settings\<lparr>opamp_offset_trim := 5 - 1\<rparr>"
    by blast
  then have a: "fst (calibrate_opamp_dac_offsets adc_ramp example_settings example_world)
      = example_settings\<lparr>opamp_offset_trim := 4\<rparr>"
    by (simp add: residual_adc_ramp)
  have "\<forall>i. 0 \<le> i \<and> i < 32 \<longrightarrow> 0 < residual adc_high i" by (simp add: residual_adc_high)
  with opamp_trim_after_sweep [of adc_high example_settings example_world]
  have b: "fst (calibrate_opamp_dac_offsets adc_high example_settings example_world)
      = example_settings"
    by blast
  have a': "opamp_offset_trim
      (fst (calibrate_opamp_dac_offsets adc_ramp example_settings example_world)) = 4"
    by (simp add: a)
  have b': "opamp_offset_trim
      (fst (calibrate_opamp_dac_offsets adc_high example_settings example_world)) = 0x24"
    by (simp only: b) (simp add: example_settings_def)
  show ?thesis by (simp add: a' b' residual_adc_ramp residual_adc_high)
qed

text \<open>
  C9 (as stated) fails. When every residual is positive the field keeps what the scratch
  copy held, here the default of \<open>config.h\<close>, 0x24 = 36; and when the residual is at
  most 0 at the first setting, 0, the field becomes -1. Neither lies in 0..31.
\<close>

theorem opamp_trim_counterexample:
  "0 < residual adc_high 0 \<and> 0 < residual adc_high 31
   \<and> opamp_offset_trim
        (fst (calibrate_opamp_dac_offsets adc_high example_settings example_world)) = 36
   \<and> residual adc_zero 0 \<le> 0
   \<and> opamp_offset_trim
        (fst (calibrate_opamp_dac_offsets adc_zero example_settings example_world)) = - 1"
  by (simp add: residual_def adc_zero_def adc_high_def calibrate_opamp_dac_offsets_def
      opamp_sweep.simps Let_def example_settings_def)

section \<open>Properties of the UI task\<close>

lemma vTaskUI_update_sentinel:
  "func r = Fn_NULL \<Longrightarrow> fst (vTaskUI_update (st, m) r) = m"
  by (simp add: vTaskUI_update_def Let_def)

lemma vTaskUI_update_main:
  "func r \<noteq> Fn_NULL \<Longrightarrow> is_main_state r \<noteq> 0 \<Longrightarrow> vTaskUI_update (st, m) r = (r, r)"
  by (simp add: vTaskUI_update_def Let_def)

lemma vTaskUI_update_keeps_main:
  "is_main_state m \<noteq> 0 \<Longrightarrow> func x = Fn_NULL \<or> is_main_state x = 0
     \<Longrightarrow> snd (vTaskUI_update (st, m) x) = m"
  by (auto simp: vTaskUI_update_def Let_def)

lemma foldl_vTaskUI_update_keeps_main:
  "is_main_state m \<noteq> 0 \<Longrightarrow> \<forall>x \<in> set rs. func x = Fn_NULL \<or> is_main_state x = 0
     \<Longrightarrow> snd (foldl vTaskUI_update (st, m) rs) = m"
proof (induction rs arbitrary: st)
  case Nil
  then show ?case by simp
next
  case (Cons x rs)
  from Cons.prems have "snd (vTaskUI_update (st, m) x) = m"
    by (intro vTaskUI_update_keeps_main) auto
  then obtain st' where "vTaskUI_update (st, m) x = (st', m)"
    by (cases "vTaskUI_update (st, m) x") auto
  with Cons show ?case by simp
qed

text \<open>
  A run of three iterations from the CC-load screen: button 1 opens the main menu, two
  detents down and button 1 choose the contrast editor, five detents up and button 1
  store the contrast 45 and return the sentinel, and the task is back on the CC-load
  screen.
\<close>

lemma call_state_set_contrast_example:
  "call_state adc_zero STATE_SET_CONTRAST example_world
       [queued UI_EVENT_UPDOWN 5, queued UI_EVENT_BUTTONPRESS 1]
    = Returned STATE_MAIN
       (example_world\<lparr>settings := example_settings\<lparr>lcd_contrast := 45\<rparr>,
          eeprom_log := [Write_lcd_contrast 45], display_contrast := 45\<rparr>) []"
  by (simp add: call_state_def STATE_SET_CONTRAST_def set_contrast_def next_event_def
      queued_def Let_def EEPROM_Write_lcd_contrast_def example_world_def example_settings_def)

lemma vTaskUI_example:
  "vTaskUI False 3 adc_zero example_world
     [queued UI_EVENT_BUTTONPRESS 1, queued UI_EVENT_UPDOWN 2, queued UI_EVENT_BUTTONPRESS 1,
      queued UI_EVENT_UPDOWN 5, queued UI_EVENT_BUTTONPRESS 1]
   = Returned (STATE_CC_LOAD, STATE_CC_LOAD)
       (example_world\<lparr>settings := example_settings\<lparr>lcd_contrast := 45\<rparr>,
          eeprom_log := [Write_lcd_contrast 45], display_contrast := 45\<rparr>) []"
proof -
  have 1: "call_state adc_zero STATE_CC_LOAD example_world
     [queued UI_EVENT_BUTTONPRESS 1, queued UI_EVENT_UPDOWN 2, queued UI_EVENT_BUTTONPRESS 1,
      queued UI_EVENT_UPDOWN 5, queued UI_EVENT_BUTTONPRESS 1]
    = Returned STATE_MAIN_MENU example_world
       [queued UI_EVENT_UPDOWN 2, queued UI_EVENT_BUTTONPRESS 1,
        queued UI_EVENT_UPDOWN 5, queued UI_EVENT_BUTTONPRESS 1]"
    by (simp add: call_state_def STATE_CC_LOAD_def cc_load_def next_event_def queued_def Let_def)
  have w: "menu_walk (items main_menu) 0 2 0 = Inr 2"
    by (simp add: menu_walk.simps array_at_def main_menu_def menu_end_def)
  have 2: "call_state adc_zero STATE_MAIN_MENU example_world
       [queued UI_EVENT_UPDOWN 2, queued UI_EVENT_BUTTONPRESS 1,
        queued UI_EVENT_UPDOWN 5, queued UI_EVENT_BUTTONPRESS 1]
    = Returned STATE_SET_CONTRAST example_world
       [queued UI_EVENT_UPDOWN 5, queued UI_EVENT_BUTTONPRESS 1]"
    by (simp add: call_state_def STATE_MAIN_MENU_def menudata_at_def menu_def next_event_def
        queued_def Let_def waiting_def fresh_event_def menu_updown_def w array_at_def)
       (simp add: main_menu_def)
  note 3 = call_state_set_contrast_example
  have u: "vTaskUI_update (STATE_CC_LOAD, STATE_CC_LOAD) STATE_MAIN_MENU = (STATE_MAIN_MENU, STATE_CC_LOAD)"
    "vTaskUI_update (STATE_MAIN_MENU, STATE_CC_LOAD) STATE_SET_CONTRAST = (STATE_SET_CONTRAST, STATE_CC_LOAD)"
    "vTaskUI_update (STATE_SET_CONTRAST, STATE_CC_LOAD) STATE_MAIN = (STATE_CC_LOAD, STATE_CC_LOAD)"
    by (simp_all add: vTaskUI_update_def STATE_CC_LOAD_def STATE_MAIN_MENU_def
        STATE_SET_CONTRAST_def STATE_MAIN_def)
  show ?thesis
    unfolding vTaskUI_def by (simp add: numeral_3_eq_3 1 2 3 u)
qed

text \<open>
  C7. An iteration of the UI task's loop calls the screen of the current state and goes
  on with the two descriptors updated from what the screen returned. When the screen
  returns the sentinel descriptor (a null handler), the next iteration runs the recorded
  main state; when it returns a descriptor
  with a handler and the \<open>is_main_state\<close> flag set, that descriptor becomes both the
  current state and the recorded main state, and it is the state the loop runs after
  every later sentinel return, as long as no other descriptor with the flag set has been
  returned in between.
\<close>

theorem trampoline_home:
  "(call_state adc st w ts = Returned r w' ts' \<longrightarrow>
      vTaskUI_loop (Suc n) adc (st, m) w ts
        = vTaskUI_loop n adc (vTaskUI_update (st, m) r) w' ts')
   \<and> (func r = Fn_NULL \<longrightarrow> fst (vTaskUI_update (st, m) r) = m)
   \<and> (func r \<noteq> Fn_NULL \<and> is_main_state r \<noteq> 0 \<longrightarrow>
        vTaskUI_update (st, m) r = (r, r)
        \<and> (\<forall>rs z. (\<forall>x \<in> set rs. func x = Fn_NULL \<or> is_main_state x = 0) \<and> func z = Fn_NULL \<longrightarrow>
              fst (vTaskUI_update (foldl vTaskUI_update (vTaskUI_update (st, m) r) rs) z) = r))"
proof (intro conjI impI allI)
  assume "call_state adc st w ts = Returned r w' ts'"
  then show "vTaskUI_loop (Suc n) adc (st, m) w ts
        = vTaskUI_loop n adc (vTaskUI_update (st, m) r) w' ts'"
    by simp
next
  assume "func r = Fn_NULL"
  then show "fst (vTaskUI_update (st, m) r) = m" by (rule vTaskUI_update_sentinel)
next
  assume a: "func r \<noteq> Fn_NULL \<and> is_main_state r \<noteq> 0"
  then show "vTaskUI_update (st, m) r = (r, r)" by (simp add: vTaskUI_update_main)
next
  fix rs :: "state_func list" and z :: state_func
  assume a: "func r \<noteq> Fn_NULL \<and> is_main_state r \<noteq> 0"
    and b: "(\<forall>x \<in> set rs. func x = Fn_NULL \<or> is_main_state x = 0) \<and> func z = Fn_NULL"
  from a have u: "vTaskUI_update (st, m) r = (r, r)" by (simp add: vTaskUI_update_main)
  from a b have "snd (foldl vTaskUI_update (r, r) rs) = r"
    by (intro foldl_vTaskUI_update_keeps_main) auto
  then obtain st' where "foldl vTaskUI_update (r, r) rs = (st', r)"
    by (cases "foldl vTaskUI_update (r, r) rs") auto
  with b u show "fst (vTaskUI_update (foldl vTaskUI_update (vTaskUI_update (st, m) r) rs) z) = r"
    by (simp add: vTaskUI_update_sentinel)
qed

theorem trampoline_home_witness:
  "call_state adc_zero STATE_SET_CONTRAST example_world
       [queued UI_EVENT_UPDOWN 5, queued UI_EVENT_BUTTONPRESS 1]
     = Returned STATE_MAIN
       (example_world\<lparr>settings := example_settings\<lparr>lcd_contrast := 45\<rparr>,
          eeprom_log := [Write_lcd_contrast 45], display_contrast := 45\<rparr>) []
   \<and> vTaskUI_loop (Suc 0) adc_zero (STATE_SET_CONTRAST, STATE_CC_LOAD) example_world
       [queued UI_EVENT_UPDOWN 5, queued UI_EVENT_BUTTONPRESS 1]
     = Returned (STATE_CC_LOAD, STATE_CC_LOAD)
       (example_world\<lparr>settings := example_settings\<lparr>lcd_contrast := 45\<rparr>,
          eeprom_log := [Write_lcd_contrast 45], display_contrast := 45\<rparr>) []
   \<and> func STATE_MAIN = Fn_NULL
   \<and> fst (vTaskUI_update (STATE_SET_CONTRAST, STATE_CC_LOAD) STATE_MAIN) = STATE_CC_LOAD
   \<and> func STATE_CC_LOAD \<noteq> Fn_NULL \<and> is_main_state STATE_CC_LOAD \<noteq> 0
   \<and> vTaskUI_update (STATE_SPLASHSCREEN, STATE_MAIN_MENU) STATE_CC_LOAD = (STATE_CC_LOAD, STATE_CC_LOAD)
   \<and> fst (vTaskUI_update
            (foldl vTaskUI_update (vTaskUI_update (STATE_SPLASHSCREEN, STATE_MAIN_MENU) STATE_CC_LOAD)
               [STATE_MAIN_MENU, STATE_SET_CONTRAST, STATE_MAIN, STATE_OVERTEMP])
            STATE_MAIN) = STATE_CC_LOAD
   \<and> vTaskUI False 3 adc_zero example_world
        [queued UI_EVENT_BUTTONPRESS 1, queued UI_EVENT_UPDOWN 2, queued UI_EVENT_BUTTONPRESS 1,
         queued UI_EVENT_UPDOWN 5, queued UI_EVENT_BUTTONPRESS 1]
       = Returned (STATE_CC_LOAD, STATE_CC_LOAD)
           (example_world\<lparr>settings := example_settings\<lparr>lcd_contrast := 45\<rparr>,
              eeprom_log := [Write_lcd_contrast 45], display_contrast := 45\<rparr>) []"
proof -
  have s: "func STATE_MAIN = Fn_NULL" by (simp add: STATE_MAIN_def)
  have c: "func STATE_CC_LOAD \<noteq> Fn_NULL \<and> is_main_state STATE_CC_LOAD \<noteq> 0"
    by (simp add: STATE_CC_LOAD_def)
  have l: "(\<forall>x \<in> set [STATE_MAIN_MENU, STATE_SET_CONTRAST, STATE_MAIN, STATE_OVERTEMP].
              func x = Fn_NULL \<or> is_main_state x = 0) \<and> func STATE_MAIN = Fn_NULL"
    by (simp add: STATE_MAIN_MENU_def STATE_SET_CONTRAST_def STATE_MAIN_def STATE_OVERTEMP_def)
  from trampoline_home [where r = STATE_MAIN and st = STATE_SET_CONTRAST and m = STATE_CC_LOAD] s
  have 1: "fst (vTaskUI_update (STATE_SET_CONTRAST, STATE_CC_LOAD) STATE_MAIN) = STATE_CC_LOAD"
    by blast
  from trampoline_home [where r = STATE_CC_LOAD and st = STATE_SPLASHSCREEN and m = STATE_MAIN_MENU] c
  have 2: "vTaskUI_update (STATE_SPLASHSCREEN, STATE_MAIN_MENU) STATE_CC_LOAD = (STATE_CC_LOAD, STATE_CC_LOAD)"
    and 3: "\<forall>rs z. (\<forall>x \<in> set rs. func x = Fn_NULL \<or> is_main_state x = 0) \<and> func z = Fn_NULL \<longrightarrow>
              fst (vTaskUI_update (foldl vTaskUI_update (vTaskUI_update (STATE_SPLASHSCREEN, STATE_MAIN_MENU) STATE_CC_LOAD) rs) z) = STATE_CC_LOAD"
    by blast+
  from 3 l have 4: "fst (vTaskUI_update
            (foldl vTaskUI_update (vTaskUI_update (STATE_SPLASHSCREEN, STATE_MAIN_MENU) STATE_CC_LOAD)
               [STATE_MAIN_MENU, STATE_SET_CONTRAST, STATE_MAIN, STATE_OVERTEMP])
            STATE_MAIN) = STATE_CC_LOAD"
    by blast
  from trampoline_home [where adc = adc_zero and st = STATE_SET_CONTRAST and m = STATE_CC_LOAD
         and r = STATE_MAIN and w = example_world and n = 0
         and ts = "[queued UI_EVENT_UPDOWN 5, queued UI_EVENT_BUTTONPRESS 1]"]
       call_state_set_contrast_example
  have "vTaskUI_loop (Suc 0) adc_zero (STATE_SET_CONTRAST, STATE_CC_LOAD) example_world
       [queued UI_EVENT_UPDOWN 5, queued UI_EVENT_BUTTONPRESS 1]
     = vTaskUI_loop 0 adc_zero (vTaskUI_update (STATE_SET_CONTRAST, STATE_CC_LOAD) STATE_MAIN)
       (example_world\<lparr>settings := example_settings\<lparr>lcd_contrast := 45\<rparr>,
          eeprom_log := [Write_lcd_contrast 45], display_contrast := 45\<rparr>) []"
    by blast
  moreover have "vTaskUI_update (STATE_SET_CONTRAST, STATE_CC_LOAD) STATE_MAIN
      = (STATE_CC_LOAD, STATE_CC_LOAD)"
    by (simp add: vTaskUI_update_def STATE_CC_LOAD_def STATE_MAIN_def)
  ultimately have 5: "vTaskUI_loop (Suc 0) adc_zero (STATE_SET_CONTRAST, STATE_CC_LOAD) example_world
       [queued UI_EVENT_UPDOWN 5, queued UI_EVENT_BUTTONPRESS 1]
     = Returned (STATE_CC_LOAD, STATE_CC_LOAD)
       (example_world\<lparr>settings := example_settings\<lparr>lcd_contrast := 45\<rparr>,
          eeprom_log := [Write_lcd_contrast 45], display_contrast := 45\<rparr>) []"
    by simp
  from s c 1 2 4 5 call_state_set_contrast_example vTaskUI_example show ?thesis by blast
qed

section \<open>Properties of the status display\<close>

lemma call_print_readings:
  "raw_voltage u = raw_voltage t \<Longrightarrow> raw_current_usage u = raw_current_usage t
     \<Longrightarrow> call_print f w u = call_print f w t"
  by (cases f) (simp_all add: call_print_def print_power_def get_voltage_def get_current_usage_def)

lemma draw_status_small_readings:
  "raw_voltage u = raw_voltage t \<Longrightarrow> raw_current_usage u = raw_current_usage t
     \<Longrightarrow> draw_status_small rs i w u = draw_status_small rs i w t"
proof (induction rs i w t rule: draw_status_small.induct)
  case (1 rs i w t)
  show ?case
  proof (cases "i < 2")
    case False
    then show ?thesis by (simp add: draw_status_small.simps [of rs i])
  next
    case True
    show ?thesis
    proof (cases "readout_at rs (i + 1)")
      case (Inl f)
      with True show ?thesis by (simp add: draw_status_small.simps [of rs i])
    next
      case (Inr readout)
      note cp = call_print_readings [OF "1.prems", of "print_func readout" w]
      show ?thesis
      proof (cases "call_print (print_func readout) w t")
        case (Inl f)
        with True Inr cp show ?thesis by (simp add: draw_status_small.simps [of rs i])
      next
        case buf: (Inr buf)
        from "1.IH" [OF True Inr buf "1.prems"]
        have "draw_status_small rs (i + 1) w u = draw_status_small rs (i + 1) w t" .
        with True Inr cp buf show ?thesis by (simp add: draw_status_small.simps [of rs i])
      qed
    qed
  qed
qed

lemma draw_status_readings:
  assumes "raw_voltage u = raw_voltage t" and "raw_current_usage u = raw_current_usage t"
  shows "draw_status rs w u = draw_status rs w t"
  unfolding draw_status_def call_print_readings [OF assms] draw_status_small_readings [OF assms]
  by (rule refl)

lemma draw_status_small_2: "draw_status_small rs 2 w t = Inr []"
  by (simp add: draw_status_small.simps [of rs 2])

lemma draw_status_small_1:
  "draw_status_small rs 1 w t =
     (case readout_at rs 2 of
        Inl f \<Rightarrow> Inl f
      | Inr readout \<Rightarrow>
          (case call_print (print_func readout) w t of
             Inl f \<Rightarrow> Inl f
           | Inr buf \<Rightarrow> Inr [if length buf = 5 then strcat buf '' '' else buf]))"
  by (simp add: draw_status_small.simps [of rs 1] draw_status_small_2 split: sum.split)

lemma draw_status_small_0:
  "draw_status_small rs 0 w t =
     (case readout_at rs 1 of
        Inl f \<Rightarrow> Inl f
      | Inr readout \<Rightarrow>
          (case call_print (print_func readout) w t of
             Inl f \<Rightarrow> Inl f
           | Inr buf \<Rightarrow>
               (case draw_status_small rs 1 w t of
                  Inl f \<Rightarrow> Inl f
                | Inr drawn \<Rightarrow> Inr ((if length buf = 5 then strcat buf '' '' else buf) # drawn))))"
  by (simp add: draw_status_small.simps [of rs 0] split: sum.split)

lemma readout_at_simps:
  "readout_at (a # rs) 0 = (case array_at readout_functions a of
      None \<Rightarrow> Inl IndexOutOfBounds | Some readout \<Rightarrow> Inr readout)"
  "readout_at (a # b # rs) 1 = (case array_at readout_functions b of
      None \<Rightarrow> Inl IndexOutOfBounds | Some readout \<Rightarrow> Inr readout)"
  "readout_at (a # b # c # rs) 2 = (case array_at readout_functions c of
      None \<Rightarrow> Inl IndexOutOfBounds | Some readout \<Rightarrow> Inr readout)"
  by (simp_all add: readout_at_def array_at_def)

lemma readout_functions_at:
  "array_at readout_functions READOUT_NONE = Some \<lparr>print_func = Print_NULL, label = []\<rparr>"
  "array_at readout_functions READOUT_CURRENT_SETPOINT
     = Some \<lparr>print_func = Print_setpoint, label = ''SET''\<rparr>"
  "array_at readout_functions READOUT_CURRENT_USAGE
     = Some \<lparr>print_func = Print_current_usage, label = ''ACT''\<rparr>"
  "array_at readout_functions READOUT_VOLTAGE = Some \<lparr>print_func = Print_voltage, label = []\<rparr>"
  "array_at readout_functions READOUT_POWER = Some \<lparr>print_func = Print_power, label = []\<rparr>"
  "array_at readout_functions READOUT_RESISTANCE
     = Some \<lparr>print_func = Print_resistance, label = []\<rparr>"
  by (simp_all add: array_at_def readout_functions_def READOUT_NONE_def
      READOUT_CURRENT_SETPOINT_def READOUT_CURRENT_USAGE_def READOUT_VOLTAGE_def
      READOUT_POWER_def READOUT_RESISTANCE_def)

lemma draw_status_three_readouts:
  "\<exists>drawn. draw_status [READOUT_CURRENT_SETPOINT, READOUT_CURRENT_USAGE, READOUT_VOLTAGE] w t
     = Inr drawn"
  by (simp add: draw_status_def draw_status_small_0 draw_status_small_1 readout_at_simps
      readout_functions_at call_print_def)

lemma draw_status_resistance_fault:
  assumes "0 < get_current_usage w t" and "get_current_usage w t < 100000"
  shows "draw_status [READOUT_CURRENT_SETPOINT, READOUT_CURRENT_USAGE, READOUT_RESISTANCE] w t
     = Inl DivideByZero"
proof -
  from assms have "print_resistance GLYPH_CHAR_FONT_GLYPH_OHM (get_voltage w t)
      (get_current_usage w t) = Inl DivideByZero"
    by (simp add: print_resistance_fault)
  then show ?thesis
    by (simp add: draw_status_def draw_status_small_0 draw_status_small_1 readout_at_simps
      readout_functions_at call_print_def)
qed

lemma draw_status_none_fault:
  "draw_status (READOUT_NONE # rs) w t = Inl NullHandler"
  by (simp add: draw_status_def readout_at_simps readout_functions_at call_print_def)

section \<open>Properties of the CC-load screen\<close>

lemma cc_load_loop_event_irrelevant:
  "cc_load_loop ev w ts = cc_load_loop ev' w ts"
proof (induction ts arbitrary: ev ev' w)
  case Nil
  show ?case by simp
next
  case (Cons t ts)
  show ?case
  proof (cases "received t")
    case None
    show ?thesis
    proof (cases "draw_status (display_settings_cc w) w t")
      case (Inl f)
      with None show ?thesis by (simp add: next_event_def Let_def)
    next
      case (Inr drawn)
      with None Cons.IH [of "ev\<lparr>ev_type := UI_EVENT_ADC_READING, ev_when := tick_count t\<rparr>" w
          "ev'\<lparr>ev_type := UI_EVENT_ADC_READING, ev_when := tick_count t\<rparr>"]
      show ?thesis by (simp add: next_event_def Let_def)
    qed
  next
    case (Some e)
    then show ?thesis by (simp add: next_event_def Let_def)
  qed
qed

lemma cc_load_loop_rest:
  "(case draw_status (display_settings_cc w') w' t of
      Inl f \<Rightarrow> Fault f
    | Inr drawn \<Rightarrow> cc_load_loop ev w' ts) = cc_load_rest w' t ts"
  unfolding cc_load_rest_def cc_load_def cc_load_loop_event_irrelevant [of ev w' ts fresh_event]
  by (rule refl)


lemma cc_load_loop_timeout: "received t = None \<Longrightarrow> cc_load_loop fresh_event w (t # ts) = cc_load_rest w t ts"
  by (simp add: next_event_def Let_def cc_load_loop_rest)

lemma cc_load_loop_received: "received t = Some e \<Longrightarrow> cc_load_loop fresh_event w (t # ts) =
          (case ev_type e of
             UI_EVENT_BUTTONPRESS \<Rightarrow>
               if int_arg e = 1 then Returned STATE_MAIN_MENU w ts
               else cc_load_rest (adjust_current_setpoint (int_arg e) w) t ts
           | UI_EVENT_UPDOWN \<Rightarrow> cc_load_rest (adjust_current_setpoint (int_arg e) w) t ts
           | UI_EVENT_OVERTEMP \<Rightarrow> Returned STATE_OVERTEMP w ts
           | _ \<Rightarrow> cc_load_rest w t ts)"
  by (cases "ev_type e") (simp_all add: next_event_def Let_def cc_load_loop_rest)

lemma cc_load_Cons:
  "cc_load w (t # ts) =
     (case received t of
        None \<Rightarrow> cc_load_rest w t ts
      | Some e \<Rightarrow>
          (case ev_type e of
             UI_EVENT_BUTTONPRESS \<Rightarrow>
               if int_arg e = 1 then Returned STATE_MAIN_MENU w ts
               else cc_load_rest (adjust_current_setpoint (int_arg e) w) t ts
           | UI_EVENT_UPDOWN \<Rightarrow> cc_load_rest (adjust_current_setpoint (int_arg e) w) t ts
           | UI_EVENT_OVERTEMP \<Rightarrow> Returned STATE_OVERTEMP w ts
           | _ \<Rightarrow> cc_load_rest w t ts))"
  by (cases "received t") (simp_all only: cc_load_def cc_load_loop_timeout cc_load_loop_received option.case)


lemma cc_load_rest_readings:
  assumes "raw_voltage u = raw_voltage t" and "raw_current_usage u = raw_current_usage t"
  shows "cc_load_rest w u ts = cc_load_rest w t ts"
  unfolding cc_load_rest_def draw_status_readings [OF assms] by (rule refl)

text \<open>
  C10. On the CC-load screen a \<open>BUTTON_PRESS\<close> whose identifier is not 1 is handled as
  an \<open>UP_DOWN\<close> with the same argument: the screen does exactly what it does after
  that \<open>UP_DOWN\<close> arriving in the same cycle (the same sensor readings). The setpoint is
  set to the old setpoint plus identifier times the step of the current range (through
  \<open>set_current\<close>), the status is drawn on the new store, which ends the screen if a
  readout call faults, and otherwise the screen goes on from the new store. Identifier 1
  returns the main menu's descriptor.
\<close>

theorem cc_load_button_fallthrough:
  "(delivers UI_EVENT_BUTTONPRESS t \<and> delivered_arg t \<noteq> 1
      \<and> delivers UI_EVENT_UPDOWN u \<and> delivered_arg u = delivered_arg t
      \<and> raw_voltage u = raw_voltage t \<and> raw_current_usage u = raw_current_usage t \<longrightarrow>
        cc_load w (t # ts) = cc_load w (u # ts)
        \<and> cc_load w (t # ts)
            = cc_load_rest (set_current (current_setpoint (state w) + delivered_arg t *
                 (if current_range (state w) = 0 then CURRENT_LOWRANGE_STEP
                  else CURRENT_FULLRANGE_STEP)) w) t ts)
   \<and> (delivers UI_EVENT_BUTTONPRESS t \<and> delivered_arg t = 1 \<longrightarrow>
        cc_load w (t # ts) = Returned STATE_MAIN_MENU w ts)"
proof (intro conjI impI)
  assume a: "delivers UI_EVENT_BUTTONPRESS t \<and> delivered_arg t \<noteq> 1
      \<and> delivers UI_EVENT_UPDOWN u \<and> delivered_arg u = delivered_arg t
      \<and> raw_voltage u = raw_voltage t \<and> raw_current_usage u = raw_current_usage t"
  let ?w' = "adjust_current_setpoint (delivered_arg t) w"
  from a have t: "cc_load w (t # ts) = cc_load_rest ?w' t ts"
    by (auto simp: cc_load_Cons delivers_def delivered_arg_def split: option.splits)
  from a have "cc_load w (u # ts) = cc_load_rest ?w' u ts"
    by (auto simp: cc_load_Cons delivers_def delivered_arg_def split: option.splits)
  also from a have "\<dots> = cc_load_rest ?w' t ts"
    by (intro cc_load_rest_readings) simp_all
  finally show "cc_load w (t # ts) = cc_load w (u # ts)" using t by simp
  from t show "cc_load w (t # ts)
            = cc_load_rest (set_current (current_setpoint (state w) + delivered_arg t *
                 (if current_range (state w) = 0 then CURRENT_LOWRANGE_STEP
                  else CURRENT_FULLRANGE_STEP)) w) t ts"
    by (simp add: adjust_current_setpoint_def)
next
  assume "delivers UI_EVENT_BUTTONPRESS t \<and> delivered_arg t = 1"
  then show "cc_load w (t # ts) = Returned STATE_MAIN_MENU w ts"
    by (auto simp: cc_load_Cons delivers_def delivered_arg_def split: option.splits)
qed



lemma set_current_example:
  "display_settings_cc w = rs \<Longrightarrow> state w = \<lparr>current_setpoint = 0, current_range = 0\<rparr>
     \<Longrightarrow> set_current (current_setpoint (state w) + 2 *
           (if current_range (state w) = 0 then CURRENT_LOWRANGE_STEP else CURRENT_FULLRANGE_STEP)) w
         = w\<lparr>state := \<lparr>current_setpoint = 10000, current_range = 0\<rparr>\<rparr>"
  by (simp add: set_current_def CURRENT_LOWRANGE_STEP_def CURRENT_FULLRANGE_MAX_def
      CURRENT_LOWRANGE_MAX_def)

lemma cc_load_rest_example:
  "cc_load_rest (example_world\<lparr>state := \<lparr>current_setpoint = 10000, current_range = 0\<rparr>\<rparr>)
     (queued k n) []
   = Blocked (example_world\<lparr>state := \<lparr>current_setpoint = 10000, current_range = 0\<rparr>\<rparr>)"
proof -
  let ?w = "example_world\<lparr>state := \<lparr>current_setpoint = 10000, current_range = 0\<rparr>\<rparr>"
  have d: "display_settings_cc ?w
      = [READOUT_CURRENT_SETPOINT, READOUT_CURRENT_USAGE, READOUT_VOLTAGE]"
    by (simp add: example_world_def)
  from draw_status_three_readouts [of ?w "queued k n"]
  obtain drawn where "draw_status (display_settings_cc ?w) ?w (queued k n) = Inr drawn"
    unfolding d by blast
  then show ?thesis by (simp add: cc_load_rest_def cc_load_def)
qed

lemma cc_load_rest_resistance_example:
  "cc_load_rest (resistance_world\<lparr>state := \<lparr>current_setpoint = 10000, current_range = 0\<rparr>\<rparr>)
     (queued k n) []
   = Fault DivideByZero"
proof -
  let ?w = "resistance_world\<lparr>state := \<lparr>current_setpoint = 10000, current_range = 0\<rparr>\<rparr>"
  have d: "display_settings_cc ?w
      = [READOUT_CURRENT_SETPOINT, READOUT_CURRENT_USAGE, READOUT_RESISTANCE]"
    by (simp add: resistance_world_def)
  have u: "get_current_usage ?w (queued k n) = 19168"
    by (simp add: get_current_usage_def resistance_world_def example_world_def
        example_settings_def queued_def)
  have "draw_status (display_settings_cc ?w) ?w (queued k n) = Inl DivideByZero"
    unfolding d by (rule draw_status_resistance_fault) (simp_all add: u)
  then show ?thesis by (simp add: cc_load_rest_def)
qed

theorem cc_load_button_fallthrough_witness:
  "delivers UI_EVENT_BUTTONPRESS (queued UI_EVENT_BUTTONPRESS 2)
   \<and> delivered_arg (queued UI_EVENT_BUTTONPRESS 2) \<noteq> 1
   \<and> delivers UI_EVENT_UPDOWN (queued UI_EVENT_UPDOWN 2)
   \<and> delivered_arg (queued UI_EVENT_UPDOWN 2) = delivered_arg (queued UI_EVENT_BUTTONPRESS 2)
   \<and> raw_voltage (queued UI_EVENT_UPDOWN 2) = raw_voltage (queued UI_EVENT_BUTTONPRESS 2)
   \<and> raw_current_usage (queued UI_EVENT_UPDOWN 2)
       = raw_current_usage (queued UI_EVENT_BUTTONPRESS 2)
   \<and> cc_load example_world [queued UI_EVENT_BUTTONPRESS 2]
       = cc_load example_world [queued UI_EVENT_UPDOWN 2]
   \<and> cc_load example_world [queued UI_EVENT_BUTTONPRESS 2]
       = Blocked (example_world\<lparr>state := \<lparr>current_setpoint = 10000, current_range = 0\<rparr>\<rparr>)
   \<and> cc_load resistance_world [queued UI_EVENT_BUTTONPRESS 2]
       = cc_load resistance_world [queued UI_EVENT_UPDOWN 2]
   \<and> cc_load resistance_world [queued UI_EVENT_BUTTONPRESS 2] = Fault DivideByZero
   \<and> delivers UI_EVENT_BUTTONPRESS (queued UI_EVENT_BUTTONPRESS 1)
   \<and> delivered_arg (queued UI_EVENT_BUTTONPRESS 1) = 1
   \<and> cc_load example_world [queued UI_EVENT_BUTTONPRESS 1]
       = Returned STATE_MAIN_MENU example_world []"
proof -
  have h: "delivers UI_EVENT_BUTTONPRESS (queued UI_EVENT_BUTTONPRESS 2)
     \<and> delivered_arg (queued UI_EVENT_BUTTONPRESS 2) \<noteq> 1
     \<and> delivers UI_EVENT_UPDOWN (queued UI_EVENT_UPDOWN 2)
     \<and> delivered_arg (queued UI_EVENT_UPDOWN 2) = delivered_arg (queued UI_EVENT_BUTTONPRESS 2)
     \<and> raw_voltage (queued UI_EVENT_UPDOWN 2) = raw_voltage (queued UI_EVENT_BUTTONPRESS 2)
     \<and> raw_current_usage (queued UI_EVENT_UPDOWN 2)
         = raw_current_usage (queued UI_EVENT_BUTTONPRESS 2)"
    by (simp add: delivers_def delivered_arg_def queued_def)
  have h1: "delivers UI_EVENT_BUTTONPRESS (queued UI_EVENT_BUTTONPRESS 1)
     \<and> delivered_arg (queued UI_EVENT_BUTTONPRESS 1) = 1"
    by (simp add: delivers_def delivered_arg_def queued_def)
  have n: "delivered_arg (queued UI_EVENT_BUTTONPRESS 2) = 2"
    by (simp add: delivered_arg_def queued_def)
  have se: "set_current (current_setpoint (state example_world) + 2 *
           (if current_range (state example_world) = 0 then CURRENT_LOWRANGE_STEP
            else CURRENT_FULLRANGE_STEP)) example_world
         = example_world\<lparr>state := \<lparr>current_setpoint = 10000, current_range = 0\<rparr>\<rparr>"
    by (rule set_current_example [OF refl]) (simp add: example_world_def)
  have sr: "set_current (current_setpoint (state resistance_world) + 2 *
           (if current_range (state resistance_world) = 0 then CURRENT_LOWRANGE_STEP
            else CURRENT_FULLRANGE_STEP)) resistance_world
         = resistance_world\<lparr>state := \<lparr>current_setpoint = 10000, current_range = 0\<rparr>\<rparr>"
    by (rule set_current_example [OF refl]) (simp add: resistance_world_def example_world_def)
  from cc_load_button_fallthrough
         [where t = "queued UI_EVENT_BUTTONPRESS 2" and u = "queued UI_EVENT_UPDOWN 2"
            and w = example_world and ts = "[]"] h
  have a: "cc_load example_world [queued UI_EVENT_BUTTONPRESS 2]
             = cc_load example_world [queued UI_EVENT_UPDOWN 2]"
    and b: "cc_load example_world [queued UI_EVENT_BUTTONPRESS 2]
            = Blocked (example_world\<lparr>state := \<lparr>current_setpoint = 10000, current_range = 0\<rparr>\<rparr>)"
    unfolding n se cc_load_rest_example by blast+
  from cc_load_button_fallthrough
         [where t = "queued UI_EVENT_BUTTONPRESS 2" and u = "queued UI_EVENT_UPDOWN 2"
            and w = resistance_world and ts = "[]"] h
  have c: "cc_load resistance_world [queued UI_EVENT_BUTTONPRESS 2]
             = cc_load resistance_world [queued UI_EVENT_UPDOWN 2]"
    and d: "cc_load resistance_world [queued UI_EVENT_BUTTONPRESS 2] = Fault DivideByZero"
    unfolding n sr cc_load_rest_resistance_example by blast+
  from cc_load_button_fallthrough
         [where t = "queued UI_EVENT_BUTTONPRESS 1" and w = example_world and ts = "[]"] h1
  have e: "cc_load example_world [queued UI_EVENT_BUTTONPRESS 1]
             = Returned STATE_MAIN_MENU example_world []"
    by blast
  from h h1 a b c d e show ?thesis by blast
qed

section \<open>Properties of the quadrature decoder\<close>

lemma int8_small: "- 128 \<le> x \<Longrightarrow> x < 128 \<Longrightarrow> int8 x = x"
  by (simp add: int8_def)

lemma quadrature_step_forward:
  assumes "array_at quadrature_states (last_levels q) = Some l" "0 \<le> count q" "count q < 4"
    "0 \<le> l" "l < 4"
  shows "quadrature_event_isr l now q =
     Inr (if count q = 3
          then (\<lparr>last_levels = l, count = 0\<rparr>,
                [\<lparr>ev_type = UI_EVENT_UPDOWN, ev_when = now, int_arg = 1\<rparr>])
          else (\<lparr>last_levels = l, count = count q + 1\<rparr>, []))"
  using assms
  by (cases q) (simp add: quadrature_event_isr_def quadrature_emit_def int8_small c_div_def c_mod_def)

lemma array_at_quadrature_states:
  "array_at quadrature_states 0 = Some 1" "array_at quadrature_states 1 = Some 3"
  "array_at quadrature_states 2 = Some 0" "array_at quadrature_states 3 = Some 2"
  by (simp_all add: array_at_def quadrature_states_def)

text \<open>
  C4 (as the code has it). With \<open>last_levels = 1\<close> and an accumulated count from 0 to 3,
  feeding the forward cycle 1, 3, 2, 0, 1 (the four readings 3, 2, 0, 1, with or without
  a first reading 1 that repeats the level) sends exactly one \<open>UP_DOWN\<close> event, with
  argument +1, and leaves \<open>last_levels\<close> and the count as they were. In every
  invocation an event is sent only when the updated count \<open>c\<close> has \<open>|c| \<ge> 4\<close>; its
  argument is \<open>c / 4\<close> and the count kept is \<open>c % 4\<close>; otherwise the count kept is
  below 4 in absolute value.
\<close>

theorem quadrature_forward_cycle:
  "(last_levels q = 1 \<and> 0 \<le> count q \<and> count q < 4 \<longrightarrow>
      (\<exists>e. quadrature_feed [(3, n1), (2, n2), (0, n3), (1, n4)] q = Inr (q, [e])
           \<and> ev_type e = UI_EVENT_UPDOWN \<and> int_arg e = 1)
      \<and> quadrature_feed [(1, n0), (3, n1), (2, n2), (0, n3), (1, n4)] q
          = quadrature_feed [(3, n1), (2, n2), (0, n3), (1, n4)] q)
   \<and> (\<forall>q' sent. quadrature_event_isr levels now q = Inr (q', sent) \<longrightarrow>
         (sent = [] \<and> \<bar>count q'\<bar> < 4)
         \<or> (\<exists>c. 4 \<le> \<bar>c\<bar> \<and> c \<in> {count q, int8 (count q + 1), int8 (count q - 1)}
               \<and> sent = [\<lparr>ev_type = UI_EVENT_UPDOWN, ev_when = now, int_arg = c_div c 4\<rparr>]
               \<and> count q' = c_mod c 4))"
proof (intro conjI impI allI)
  assume a: "last_levels q = 1 \<and> 0 \<le> count q \<and> count q < 4"
  then have "count q = 0 \<or> count q = 1 \<or> count q = 2 \<or> count q = 3" by arith
  with a show "\<exists>e. quadrature_feed [(3, n1), (2, n2), (0, n3), (1, n4)] q = Inr (q, [e])
           \<and> ev_type e = UI_EVENT_UPDOWN \<and> int_arg e = 1"
    by (cases q) (auto simp: quadrature_step_forward array_at_quadrature_states)
next
  assume a: "last_levels q = 1 \<and> 0 \<le> count q \<and> count q < 4"
  then have "quadrature_event_isr 1 n0 q = Inr (q, [])"
    by (simp add: quadrature_event_isr_def quadrature_emit_def array_at_quadrature_states)
  then show "quadrature_feed [(1, n0), (3, n1), (2, n2), (0, n3), (1, n4)] q
          = quadrature_feed [(3, n1), (2, n2), (0, n3), (1, n4)] q"
    by (simp split: sum.split prod.split)
next
  fix q' sent
  assume r: "quadrature_event_isr levels now q = Inr (q', sent)"
  have emit: "\<And>p. quadrature_emit now p = (q', sent) \<Longrightarrow>
      (sent = [] \<and> \<bar>count q'\<bar> < 4)
         \<or> (4 \<le> \<bar>count p\<bar> \<and> sent = [\<lparr>ev_type = UI_EVENT_UPDOWN, ev_when = now, int_arg = c_div (count p) 4\<rparr>]
               \<and> count q' = c_mod (count p) 4)"
  proof -
    fix p assume e: "quadrature_emit now p = (q', sent)"
    have "\<bar>c_mod (count p) 4\<bar> < 4" by (simp add: c_mod_def c_div_def sgn_if) arith
    then have "int8 (c_mod (count p) 4) = c_mod (count p) 4" by (intro int8_small) auto
    with e show "(sent = [] \<and> \<bar>count q'\<bar> < 4)
         \<or> (4 \<le> \<bar>count p\<bar> \<and> sent = [\<lparr>ev_type = UI_EVENT_UPDOWN, ev_when = now, int_arg = c_div (count p) 4\<rparr>]
               \<and> count q' = c_mod (count p) 4)"
      by (auto simp: quadrature_emit_def split: if_splits)
  qed
  from r show "(sent = [] \<and> \<bar>count q'\<bar> < 4)
         \<or> (\<exists>c. 4 \<le> \<bar>c\<bar> \<and> c \<in> {count q, int8 (count q + 1), int8 (count q - 1)}
               \<and> sent = [\<lparr>ev_type = UI_EVENT_UPDOWN, ev_when = now, int_arg = c_div c 4\<rparr>]
               \<and> count q' = c_mod c 4)"
    by (auto simp: quadrature_event_isr_def split: option.splits if_splits dest!: emit)
qed

theorem quadrature_forward_cycle_witness:
  "last_levels \<lparr>last_levels = 1, count = 2\<rparr> = 1
   \<and> (0::int) \<le> count \<lparr>last_levels = 1, count = 2\<rparr>
   \<and> count \<lparr>last_levels = 1, count = 2\<rparr> < 4
   \<and> (\<exists>e. quadrature_feed [(3, 5), (2, 6), (0, 7), (1, 8)] \<lparr>last_levels = 1, count = 2\<rparr>
             = Inr (\<lparr>last_levels = 1, count = 2\<rparr>, [e])
          \<and> ev_type e = UI_EVENT_UPDOWN \<and> int_arg e = 1)
   \<and> quadrature_feed [(3, 5), (2, 6), (0, 7), (1, 8)] \<lparr>last_levels = 1, count = 2\<rparr>
       = Inr (\<lparr>last_levels = 1, count = 2\<rparr>,
              [\<lparr>ev_type = UI_EVENT_UPDOWN, ev_when = 6, int_arg = 1\<rparr>])
   \<and> quadrature_event_isr 3 9 \<lparr>last_levels = 1, count = 3\<rparr>
       = Inr (\<lparr>last_levels = 3, count = 0\<rparr>,
              [\<lparr>ev_type = UI_EVENT_UPDOWN, ev_when = 9, int_arg = 1\<rparr>])
   \<and> (\<exists>c. 4 \<le> \<bar>c\<bar> \<and> c \<in> {3, int8 (3 + 1), int8 (3 - 1)} \<and> c_div c 4 = 1 \<and> c_mod c 4 = 0)"
proof -
  have h: "last_levels \<lparr>last_levels = 1, count = 2\<rparr> = 1
     \<and> (0::int) \<le> count \<lparr>last_levels = 1, count = 2\<rparr>
     \<and> count \<lparr>last_levels = 1, count = 2\<rparr> < 4"
    by simp
  from quadrature_forward_cycle
         [where q = "\<lparr>last_levels = 1, count = 2\<rparr>" and ?n1.0 = 5 and ?n2.0 = 6 and ?n3.0 = 7
            and ?n4.0 = 8] h
  have a: "\<exists>e. quadrature_feed [(3, 5), (2, 6), (0, 7), (1, 8)] \<lparr>last_levels = 1, count = 2\<rparr>
             = Inr (\<lparr>last_levels = 1, count = 2\<rparr>, [e])
          \<and> ev_type e = UI_EVENT_UPDOWN \<and> int_arg e = 1"
    by blast
  have b: "quadrature_feed [(3, 5), (2, 6), (0, 7), (1, 8)] \<lparr>last_levels = 1, count = 2\<rparr>
       = Inr (\<lparr>last_levels = 1, count = 2\<rparr>,
              [\<lparr>ev_type = UI_EVENT_UPDOWN, ev_when = 6, int_arg = 1\<rparr>])"
    by (simp add: quadrature_step_forward array_at_quadrature_states)
  have c: "quadrature_event_isr 3 9 \<lparr>last_levels = 1, count = 3\<rparr>
       = Inr (\<lparr>last_levels = 3, count = 0\<rparr>,
              [\<lparr>ev_type = UI_EVENT_UPDOWN, ev_when = 9, int_arg = 1\<rparr>])"
    by (simp add: quadrature_step_forward array_at_quadrature_states)
  from quadrature_forward_cycle
         [where q = "\<lparr>last_levels = 1, count = 3\<rparr>" and levels = 3 and now = 9] c
  have "([\<lparr>ev_type = UI_EVENT_UPDOWN, ev_when = 9, int_arg = 1\<rparr>] = []
          \<and> \<bar>count \<lparr>last_levels = 3, count = 0\<rparr>\<bar> < 4)
        \<or> (\<exists>c. 4 \<le> \<bar>c\<bar>
              \<and> c \<in> {count \<lparr>last_levels = 1, count = 3\<rparr>,
                      int8 (count \<lparr>last_levels = 1, count = 3\<rparr> + 1),
                      int8 (count \<lparr>last_levels = 1, count = 3\<rparr> - 1)}
              \<and> [\<lparr>ev_type = UI_EVENT_UPDOWN, ev_when = 9, int_arg = 1\<rparr>]
                  = [\<lparr>ev_type = UI_EVENT_UPDOWN, ev_when = 9, int_arg = c_div c 4\<rparr>]
              \<and> count \<lparr>last_levels = 3, count = 0\<rparr> = c_mod c 4)"
    by blast
  then have d: "\<exists>c. 4 \<le> \<bar>c\<bar> \<and> c \<in> {3, int8 (3 + 1), int8 (3 - 1)} \<and> c_div c 4 = 1 \<and> c_mod c 4 = 0"
    by simp
  from h a b c d show ?thesis by blast
qed

text \<open>
  C4 (as stated) fails. From the handler's initial state (\<open>last_levels = 3\<close>, count 0)
  the readings 1, 3, 2, 0, 1 send no event: the first is a backward edge. From
  \<open>last_levels = 1\<close> and count -1 the cycle sends no event either, and leaves the count 3.
\<close>

theorem quadrature_forward_cycle_counterexample:
  "\<bar>count quadrature_init\<bar> < 4
   \<and> quadrature_feed [(1, 0), (3, 0), (2, 0), (0, 0), (1, 0)] quadrature_init
       = Inr (\<lparr>last_levels = 1, count = 3\<rparr>, [])
   \<and> \<bar>count \<lparr>last_levels = 1, count = - 1\<rparr>\<bar> < 4
   \<and> quadrature_feed [(3, 0), (2, 0), (0, 0), (1, 0)] \<lparr>last_levels = 1, count = - 1\<rparr>
       = Inr (\<lparr>last_levels = 1, count = 3\<rparr>, [])
   \<and> quadrature_feed [(1, 0), (3, 0), (2, 0), (0, 0), (1, 0)] \<lparr>last_levels = 1, count = - 1\<rparr>
       = Inr (\<lparr>last_levels = 1, count = 3\<rparr>, [])"
  by (simp add: quadrature_init_def quadrature_event_isr_def quadrature_emit_def
      array_at_quadrature_states int8_def)

section \<open>Properties of the menu screen\<close>

lemma menu_size_sentinel:
  "menu_size its < length its \<Longrightarrow> caption (its ! menu_size its) = None"
  unfolding menu_size_def using nth_length_takeWhile [of "\<lambda>it. caption it \<noteq> None" its] by simp

lemma array_at_in_range:
  "0 \<le> i \<Longrightarrow> i < int (length xs) \<Longrightarrow> array_at xs i = Some (xs ! nat i)"
  by (simp add: array_at_def)

lemma menu_size_caption:
  "k < menu_size its \<Longrightarrow> caption (its ! k) \<noteq> None"
proof -
  assume k: "k < menu_size its"
  let ?P = "\<lambda>it. caption it \<noteq> None"
  from k have "takeWhile ?P its ! k \<in> set (takeWhile ?P its)"
    unfolding menu_size_def by (rule nth_mem)
  then have "?P (takeWhile ?P its ! k)" by (rule set_takeWhileD [THEN conjunct2])
  moreover from k have "takeWhile ?P its ! k = its ! k"
    unfolding menu_size_def by (rule takeWhile_nth)
  ultimately show ?thesis by simp
qed

lemma menu_walk_exact:
  "menu_size its < length its \<Longrightarrow> 0 \<le> selected \<Longrightarrow> selected < int (menu_size its)
     \<Longrightarrow> menu_walk its i n selected
           = Inr (min (selected + max 0 (n - i)) (int (menu_size its) - 1))"
proof (induction its i n selected rule: menu_walk.induct)
  case (1 its i n selected)
  show ?case
  proof (cases "i < n")
    case False
    with "1.prems" show ?thesis by (simp add: menu_walk.simps [of its i])
  next
    case True
    from "1.prems" have at: "array_at its (selected + 1) = Some (its ! nat (selected + 1))"
      by (intro array_at_in_range) auto
    show ?thesis
    proof (cases "caption (its ! nat (selected + 1)) = None")
      case cap: True
      from "1.prems" menu_size_caption [of "nat (selected + 1)" its] cap
      have "\<not> nat (selected + 1) < menu_size its" by blast
      with "1.prems" have "selected = int (menu_size its) - 1" by auto
      with True at cap show ?thesis by (simp add: menu_walk.simps [of its i])
    next
      case False
      with menu_size_sentinel [OF "1.prems"(1)] have "nat (selected + 1) \<noteq> menu_size its"
        by auto
      with "1.prems" have lt: "selected + 1 < int (menu_size its)" by auto
      with "1.prems" \<open>i < n\<close> at False
      have "menu_walk its (i + 1) n (selected + 1)
              = Inr (min (selected + 1 + max 0 (n - (i + 1))) (int (menu_size its) - 1))"
        by (intro "1.IH") auto
      with \<open>i < n\<close> at False show ?thesis
        by (auto simp: menu_walk.simps [of its i])
    qed
  qed
qed

lemma menu_updown_exact:
  assumes "menu_size its < length its" "0 \<le> selected" "selected < int (menu_size its)"
  shows "menu_updown its selected d = Inr (menu_move (menu_size its) selected d)"
proof (cases "d < 0")
  case True
  then show ?thesis by (simp add: menu_updown_def menu_move_def)
next
  case False
  with menu_walk_exact [OF assms, of 0 d] show ?thesis
    by (simp add: menu_updown_def menu_move_def)
qed

lemma menu_move_bounds:
  "0 \<le> selected \<Longrightarrow> selected < int n
     \<Longrightarrow> 0 \<le> menu_move n selected d \<and> menu_move n selected d < int n"
  by (auto simp: menu_move_def)

lemma menu_selected_exact:
  "menu_size its < length its \<Longrightarrow> 0 \<le> selected \<Longrightarrow> selected < int (menu_size its)
     \<Longrightarrow> menu_selected its selected ds = Inr (foldl (menu_move (menu_size its)) selected ds)
         \<and> 0 \<le> foldl (menu_move (menu_size its)) selected ds
         \<and> foldl (menu_move (menu_size its)) selected ds < int (menu_size its)"
proof (induction ds arbitrary: selected)
  case Nil
  then show ?case by simp
next
  case (Cons d ds)
  note u = menu_updown_exact [OF Cons.prems, of d]
  note b = menu_move_bounds [OF Cons.prems(2,3), of d]
  from Cons.IH [OF Cons.prems(1) b [THEN conjunct1] b [THEN conjunct2]] u
  show ?case by simp
qed

lemma next_event_delivers:
  "delivers k t \<Longrightarrow> ev_type (next_event ev t) = k \<and> int_arg (next_event ev t) = delivered_arg t"
  by (auto simp: delivers_def delivered_arg_def next_event_def split: option.splits)

lemma menu_loop_updowns:
  "waiting ev \<Longrightarrow> \<forall>t \<in> set ups. delivers UI_EVENT_UPDOWN t
     \<Longrightarrow> menu_selected (items m) selected (map delivered_arg ups) = Inr s
     \<Longrightarrow> \<exists>ev'. waiting ev' \<and> menu_loop m selected ev w (ups @ rest) = menu_loop m s ev' w rest"
proof (induction ups arbitrary: ev selected)
  case Nil
  then show ?case by auto
next
  case (Cons t ups)
  from Cons.prems(2) have d: "delivers UI_EVENT_UPDOWN t" by simp
  note ne = next_event_delivers [OF d, of ev]
  from ne have w': "waiting (next_event ev t)" by (simp add: waiting_def)
  from Cons.prems(3) obtain s1 where s1: "menu_updown (items m) selected (delivered_arg t) = Inr s1"
    and rest: "menu_selected (items m) s1 (map delivered_arg ups) = Inr s"
    by (auto split: sum.splits)
  from Cons.IH [OF w' _ rest] Cons.prems(2)
  obtain ev' where "waiting ev'"
    "menu_loop m s1 (next_event ev t) w (ups @ rest) = menu_loop m s ev' w rest"
    by auto
  with Cons.prems(1) ne s1 show ?case
    by (intro exI [of _ ev']) (simp add: Let_def)
qed

lemma menu_loop_button:
  assumes "waiting ev" "delivers UI_EVENT_BUTTONPRESS b" "delivered_arg b = 1"
    "0 \<le> selected" "selected < int (length (items m))"
  shows "menu_loop m selected ev w (b # rest) = Returned (new_state (items m ! nat selected)) w rest"
proof -
  note ne = next_event_delivers [OF assms(2), of ev]
  with assms(3) have nw: "\<not> waiting (next_event ev b)" by (simp add: waiting_def)
  have "menu_loop m selected (next_event ev b) w rest
          = Returned (new_state (items m ! nat selected)) w rest"
    using nw assms(4,5) by (cases rest) (simp_all add: array_at_in_range)
  with assms(1) ne show ?thesis by (simp add: Let_def)
qed

text \<open>
  C6. Take a menu whose item array has a terminating item, with \<open>n \<ge> 1\<close> items before
  it. From a selection in \<open>[0, n - 1]\<close> an \<open>UP_DOWN\<close> with a negative delta \<open>d\<close> moves
  the selection to \<open>max 0 (selected + d)\<close>, and one with any other delta to
  \<open>min (selected + d) (n - 1)\<close>. So after any sequence of \<open>UP_DOWN\<close> events, and after
  every prefix of it, the selection is the one these moves give from 0 and lies in
  \<open>[0, n - 1]\<close>; and on a \<open>BUTTON_PRESS\<close> with identifier 1 after the sequence the menu
  screen returns the \<open>new_state\<close> of the selected item, having changed nothing in the
  store.
\<close>

theorem menu_selection_bounds:
  assumes "menu_size (items m) < length (items m)" and "1 \<le> menu_size (items m)"
    and "\<forall>t \<in> set ups. delivers UI_EVENT_UPDOWN t"
    and "delivers UI_EVENT_BUTTONPRESS b" and "delivered_arg b = 1"
  shows "(\<forall>selected d. 0 \<le> selected \<and> selected < int (menu_size (items m)) \<longrightarrow>
            menu_updown (items m) selected d
              = Inr (if d < 0 then max 0 (selected + d)
                     else min (selected + d) (int (menu_size (items m)) - 1)))
         \<and> (\<forall>k \<le> length ups.
               menu_selected (items m) 0 (map delivered_arg (take k ups))
                 = Inr (foldl (menu_move (menu_size (items m))) 0 (map delivered_arg (take k ups)))
               \<and> 0 \<le> foldl (menu_move (menu_size (items m))) 0 (map delivered_arg (take k ups))
               \<and> foldl (menu_move (menu_size (items m))) 0 (map delivered_arg (take k ups))
                   < int (menu_size (items m)))
         \<and> menu m w (ups @ b # rest)
             = Returned (new_state (items m !
                 nat (foldl (menu_move (menu_size (items m))) 0 (map delivered_arg ups)))) w rest"
proof (intro conjI allI impI)
  fix selected d
  assume "0 \<le> selected \<and> selected < int (menu_size (items m))"
  then show "menu_updown (items m) selected d
              = Inr (if d < 0 then max 0 (selected + d)
                     else min (selected + d) (int (menu_size (items m)) - 1))"
    using menu_updown_exact [OF assms(1), of selected d] by (simp add: menu_move_def)
next
  from assms(2) have z: "(0::int) \<le> 0" "0 < int (menu_size (items m))" by simp_all
  note exact = menu_selected_exact [OF assms(1) z]
  {
    fix k
    from exact [of "map delivered_arg (take k ups)"]
    show "menu_selected (items m) 0 (map delivered_arg (take k ups))
                 = Inr (foldl (menu_move (menu_size (items m))) 0 (map delivered_arg (take k ups)))"
      and "0 \<le> foldl (menu_move (menu_size (items m))) 0 (map delivered_arg (take k ups))"
      and "foldl (menu_move (menu_size (items m))) 0 (map delivered_arg (take k ups))
                   < int (menu_size (items m))"
      by simp_all
  }
  let ?sel = "foldl (menu_move (menu_size (items m))) 0 (map delivered_arg ups)"
  from exact [of "map delivered_arg ups"]
  have sel: "menu_selected (items m) 0 (map delivered_arg ups) = Inr ?sel"
    "0 \<le> ?sel" "?sel < int (menu_size (items m))"
    by simp_all
  have fw: "waiting fresh_event" by (simp add: waiting_def fresh_event_def)
  from menu_loop_updowns [OF fw assms(3) sel(1), of w "b # rest"]
  obtain ev' where ev': "waiting ev'"
    "menu_loop m 0 fresh_event w (ups @ b # rest) = menu_loop m ?sel ev' w (b # rest)"
    by blast
  from sel(3) assms(1) have "?sel < int (length (items m))" by simp
  from menu_loop_button [OF ev'(1) assms(4,5) sel(2) this, of w rest] ev'(2)
  show "menu m w (ups @ b # rest) = Returned (new_state (items m ! nat ?sel)) w rest"
    by (simp add: menu_def)
qed

lemma menu_size_main_menu: "menu_size (items main_menu) = 4"
  by (simp add: menu_size_def main_menu_def menu_end_def)

theorem menu_selection_bounds_witness:
  "menu_size (items main_menu) < length (items main_menu)
   \<and> 1 \<le> menu_size (items main_menu)
   \<and> delivers UI_EVENT_UPDOWN (queued UI_EVENT_UPDOWN 100)
   \<and> delivers UI_EVENT_UPDOWN (queued UI_EVENT_UPDOWN (- 1))
   \<and> delivers UI_EVENT_UPDOWN (queued UI_EVENT_UPDOWN (- 7))
   \<and> delivers UI_EVENT_UPDOWN (queued UI_EVENT_UPDOWN 2)
   \<and> delivers UI_EVENT_BUTTONPRESS (queued UI_EVENT_BUTTONPRESS 1)
   \<and> delivered_arg (queued UI_EVENT_BUTTONPRESS 1) = 1
   \<and> menu_updown (items main_menu) 0 100 = Inr 3
   \<and> menu_updown (items main_menu) 3 (- 1) = Inr 2
   \<and> menu_updown (items main_menu) 2 (- 7) = Inr 0
   \<and> menu_updown (items main_menu) 0 2 = Inr 2
   \<and> menu_selected (items main_menu) 0 [100, - 1, - 7, 2] = Inr 2
   \<and> menu main_menu example_world
        ([queued UI_EVENT_UPDOWN 100, queued UI_EVENT_UPDOWN (- 1), queued UI_EVENT_UPDOWN (- 7),
          queued UI_EVENT_UPDOWN 2] @ queued UI_EVENT_BUTTONPRESS 1 # [])
       = Returned STATE_SET_CONTRAST example_world []"
proof -
  let ?ups = "[queued UI_EVENT_UPDOWN 100, queued UI_EVENT_UPDOWN (- 1),
    queued UI_EVENT_UPDOWN (- 7), queued UI_EVENT_UPDOWN 2]"
  have n: "menu_size (items main_menu) = 4" by (rule menu_size_main_menu)
  have h1: "menu_size (items main_menu) < length (items main_menu)"
    unfolding n by (simp add: main_menu_def)
  have h2: "1 \<le> menu_size (items main_menu)" unfolding n by simp
  have d: "delivers UI_EVENT_UPDOWN (queued UI_EVENT_UPDOWN 100)"
    "delivers UI_EVENT_UPDOWN (queued UI_EVENT_UPDOWN (- 1))"
    "delivers UI_EVENT_UPDOWN (queued UI_EVENT_UPDOWN (- 7))"
    "delivers UI_EVENT_UPDOWN (queued UI_EVENT_UPDOWN 2)"
    by (simp_all add: delivers_def queued_def)
  then have h3: "\<forall>t \<in> set ?ups. delivers UI_EVENT_UPDOWN t" by simp
  have h4: "delivers UI_EVENT_BUTTONPRESS (queued UI_EVENT_BUTTONPRESS 1)"
    and h5: "delivered_arg (queued UI_EVENT_BUTTONPRESS 1) = 1"
    by (simp_all add: delivers_def delivered_arg_def queued_def)
  have a: "map delivered_arg ?ups = [100, - 1, - 7, 2]"
    by (simp add: delivered_arg_def queued_def)
  have f: "foldl (menu_move 4) 0 [100, - 1, - 7, 2] = 2"
    by (simp add: menu_move_def)
  note th = menu_selection_bounds [OF h1 h2 h3 h4 h5, of example_world "[]", unfolded n a f]
  from th have step: "\<forall>selected d. 0 \<le> selected \<and> selected < int 4 \<longrightarrow>
            menu_updown (items main_menu) selected d
              = Inr (if d < 0 then max 0 (selected + d) else min (selected + d) (int 4 - 1))"
    by blast
  from step have u: "menu_updown (items main_menu) 0 100 = Inr 3"
    "menu_updown (items main_menu) 3 (- 1) = Inr 2"
    "menu_updown (items main_menu) 2 (- 7) = Inr 0"
    "menu_updown (items main_menu) 0 2 = Inr 2"
    by simp_all
  from u have s: "menu_selected (items main_menu) 0 [100, - 1, - 7, 2] = Inr 2"
    by simp
  have i: "new_state (items main_menu ! nat 2) = STATE_SET_CONTRAST"
    by (simp add: main_menu_def numeral_2_eq_2)
  from th have r: "menu main_menu example_world (?ups @ queued UI_EVENT_BUTTONPRESS 1 # [])
       = Returned STATE_SET_CONTRAST example_world []"
    unfolding i by blast
  from h1 h2 d h4 h5 u s r show ?thesis by blast
qed

section \<open>Properties of the overtemp screen\<close>

lemma next_event_waiting:
  "waiting (next_event ev t) \<longleftrightarrow> \<not> (delivers UI_EVENT_BUTTONPRESS t \<and> delivered_arg t = 1)"
  by (auto simp: waiting_def next_event_def delivers_def delivered_arg_def split: option.splits)

lemma overtemp_loop_not_waiting:
  "\<not> waiting ev \<Longrightarrow> overtemp_loop ev w ts
     = Returned STATE_MAIN (set_output_mode OUTPUT_MODE_FEEDBACK (set_current 0 w)) ts"
  by (cases ts) simp_all

lemma overtemp_loop_waiting:
  "waiting ev \<Longrightarrow> overtemp_loop ev w ts =
     (case dropWhile (\<lambda>t. \<not> ends_overtemp t) ts of
        [] \<Rightarrow> Blocked w
      | t # rest \<Rightarrow>
          if mode_reading t = OUTPUT_MODE_FEEDBACK then Returned STATE_MAIN w rest
          else Returned STATE_MAIN (set_output_mode OUTPUT_MODE_FEEDBACK (set_current 0 w)) rest)"
proof (induction ts arbitrary: ev)
  case Nil
  then show ?case by simp
next
  case (Cons t ts)
  show ?case
  proof (cases "mode_reading t = OUTPUT_MODE_FEEDBACK")
    case True
    with Cons.prems show ?thesis by (simp add: ends_overtemp_def Let_def)
  next
    case False
    show ?thesis
    proof (cases "waiting (next_event ev t)")
      case True
      with False have "\<not> ends_overtemp t" by (simp add: ends_overtemp_def next_event_waiting)
      with Cons.prems False Cons.IH [OF True] show ?thesis by (simp add: Let_def)
    next
      case nw: False
      with False have "ends_overtemp t" by (simp add: ends_overtemp_def next_event_waiting)
      with Cons.prems False overtemp_loop_not_waiting [OF nw] show ?thesis by (simp add: Let_def)
    qed
  qed
qed

lemma acknowledge_overtemp:
  "set_output_mode OUTPUT_MODE_FEEDBACK (set_current 0 w)
     = w\<lparr>state := \<lparr>current_setpoint = 0, current_range = 0\<rparr>, output_mode := OUTPUT_MODE_FEEDBACK\<rparr>"
  by (simp add: set_output_mode_def set_current_def CURRENT_LOWRANGE_MAX_def CURRENT_FULLRANGE_MAX_def)

text \<open>
  C8. The overtemp screen runs until the first cycle in which the output mode reads
  FEEDBACK or button 1 is pressed; no other event ends it, and while none has come it
  waits. If in that cycle the mode reads FEEDBACK it returns the home sentinel and leaves
  the store as it was; otherwise (button 1, mode not FEEDBACK) it sets the setpoint to 0
  and the output mode to FEEDBACK and returns the home sentinel.
\<close>

theorem overtemp_exits:
  "overtemp w ts =
     (case dropWhile (\<lambda>t. \<not> ends_overtemp t) ts of
        [] \<Rightarrow> Blocked w
      | t # rest \<Rightarrow>
          if mode_reading t = OUTPUT_MODE_FEEDBACK then Returned STATE_MAIN w rest
          else Returned STATE_MAIN
                 (w\<lparr>state := \<lparr>current_setpoint = 0, current_range = 0\<rparr>,
                    output_mode := OUTPUT_MODE_FEEDBACK\<rparr>) rest)"
proof -
  have "waiting fresh_event" by (simp add: waiting_def fresh_event_def)
  then show ?thesis
    unfolding overtemp_def acknowledge_overtemp [symmetric] by (rule overtemp_loop_waiting)
qed


theorem overtemp_exits_witness:
  "overtemp example_world [queued UI_EVENT_UPDOWN 3, queued UI_EVENT_BUTTONPRESS 2]
     = Blocked example_world
   \<and> overtemp example_world
       [queued UI_EVENT_UPDOWN 3, (queued UI_EVENT_OVERTEMP 0)\<lparr>mode_reading := OUTPUT_MODE_FEEDBACK\<rparr>,
        queued UI_EVENT_BUTTONPRESS 1]
     = Returned STATE_MAIN example_world [queued UI_EVENT_BUTTONPRESS 1]
   \<and> overtemp (set_current 40000 example_world)
       [queued UI_EVENT_BUTTONPRESS 2, queued UI_EVENT_BUTTONPRESS 1, queued UI_EVENT_UPDOWN 3]
     = Returned STATE_MAIN (example_world\<lparr>output_mode := OUTPUT_MODE_FEEDBACK\<rparr>)
         [queued UI_EVENT_UPDOWN 3]"
proof -
  have e: "\<not> ends_overtemp (queued UI_EVENT_UPDOWN 3)"
    "\<not> ends_overtemp (queued UI_EVENT_BUTTONPRESS 2)"
    "ends_overtemp (queued UI_EVENT_BUTTONPRESS 1)"
    "ends_overtemp ((queued UI_EVENT_OVERTEMP 0)\<lparr>mode_reading := OUTPUT_MODE_FEEDBACK\<rparr>)"
    by (simp_all add: ends_overtemp_def queued_def delivers_def delivered_arg_def)
  have m: "mode_reading (queued UI_EVENT_BUTTONPRESS 1) \<noteq> OUTPUT_MODE_FEEDBACK"
    by (simp add: queued_def)
  have s: "set_current 40000 example_world
      = example_world\<lparr>state := \<lparr>current_setpoint = 40000, current_range = 0\<rparr>\<rparr>"
    by (simp add: set_current_def CURRENT_FULLRANGE_MAX_def CURRENT_LOWRANGE_MAX_def)
  have x: "example_world\<lparr>state := \<lparr>current_setpoint = 0, current_range = 0\<rparr>\<rparr> = example_world"
    by (simp add: example_world_def)
  show ?thesis
    using overtemp_exits [of example_world
            "[queued UI_EVENT_UPDOWN 3, queued UI_EVENT_BUTTONPRESS 2]"]
      overtemp_exits [of example_world
            "[queued UI_EVENT_UPDOWN 3,
              (queued UI_EVENT_OVERTEMP 0)\<lparr>mode_reading := OUTPUT_MODE_FEEDBACK\<rparr>,
              queued UI_EVENT_BUTTONPRESS 1]"]
      overtemp_exits [of "set_current 40000 example_world"
            "[queued UI_EVENT_BUTTONPRESS 2, queued UI_EVENT_BUTTONPRESS 1,
              queued UI_EVENT_UPDOWN 3]"]
    by (simp add: e m s x)
qed

section \<open>Properties of the calibration wizard\<close>

lemma calibrate_offsets_loop_outcome:
  "(\<exists>s' ts'. calibrate_offsets_loop ev s w ts = Returned s' w ts')
   \<or> calibrate_offsets_loop ev s w ts = Blocked w"
  by (induction ts arbitrary: ev) (auto simp: Let_def)

lemma calibrate_voltage_loop_outcome:
  "(\<exists>s' ts'. calibrate_voltage_loop ev s w ts = Returned s' w ts')
   \<or> calibrate_voltage_loop ev s w ts = Blocked w"
proof (induction ts arbitrary: ev s)
  case Nil
  show ?case by simp
next
  case (Cons t ts)
  show ?case
  proof (cases "waiting ev")
    case False
    then show ?thesis by simp
  next
    case True
    then show ?thesis
      using Cons.IH by (cases "ev_type (next_event ev t)") (simp_all add: Let_def)
  qed
qed

lemma persisted_set_current: "persisted (set_current x w) = persisted w"
  by (simp add: persisted_def set_current_def Let_def)

lemma persisted_opamp_sweep: "persisted (snd (opamp_sweep adc i s w)) = persisted w"
proof (induction adc i s w rule: opamp_sweep.induct)
  case (1 adc i s w)
  show ?case
  proof (cases "i < 32 \<and> \<not> adc i ADC_CHAN_CURRENT_SENSE - adc i ADC_CHAN_CURRENT_SET \<le> 0")
    case True
    with "1.IH" [OF _ refl refl] have "persisted (snd (opamp_sweep adc (i + 1) s (w\<lparr>opamp_trim_reg := i\<rparr>)))
        = persisted (w\<lparr>opamp_trim_reg := i\<rparr>)"
      by simp
    with True show ?thesis
      by (subst opamp_sweep.simps) (simp add: Let_def persisted_def)
  next
    case False
    then show ?thesis
      by (subst opamp_sweep.simps) (auto simp: Let_def persisted_def)
  qed
qed

lemma persisted_calibrate_opamp_dac_offsets:
  "persisted (snd (calibrate_opamp_dac_offsets adc s w)) = persisted w"
  using persisted_opamp_sweep [of adc 0 s "set_current 100000 w"]
  by (simp add: calibrate_opamp_dac_offsets_def split_beta persisted_set_current)

lemma calibrate_outcome:
  "calibrate adc w ts = Blocked (set_current 0 w)
   \<or> (\<exists>s w' ts'. calibrate adc w ts = Returned STATE_MAIN (EEPROM_Write_settings s w') ts'
          \<and> persisted w' = persisted w)"
proof -
  let ?w0 = "set_current 0 w"
  from calibrate_offsets_loop_outcome [of fresh_event "settings ?w0" ?w0 ts]
  show ?thesis
  proof
    assume "calibrate_offsets_loop fresh_event (settings ?w0) ?w0 ts = Blocked ?w0"
    then show ?thesis by (simp add: calibrate_def calibrate_offsets_def Let_def)
  next
    assume "\<exists>s' ts'. calibrate_offsets_loop fresh_event (settings ?w0) ?w0 ts = Returned s' ?w0 ts'"
    then obtain s1 ts1 where 1: "calibrate_offsets (settings ?w0) ?w0 ts = Returned s1 ?w0 ts1"
      by (auto simp: calibrate_offsets_def)
    from calibrate_voltage_loop_outcome [of fresh_event s1 ?w0 ts1]
    show ?thesis
    proof
      assume "calibrate_voltage_loop fresh_event s1 ?w0 ts1 = Blocked ?w0"
      with 1 show ?thesis by (simp add: calibrate_def calibrate_voltage_def Let_def)
    next
      assume "\<exists>s' ts'. calibrate_voltage_loop fresh_event s1 ?w0 ts1 = Returned s' ?w0 ts'"
      then obtain s2 ts2 where 2: "calibrate_voltage s1 ?w0 ts1 = Returned s2 ?w0 ts2"
        by (auto simp: calibrate_voltage_def)
      obtain s3 w3 where 3: "calibrate_opamp_dac_offsets adc s2 ?w0 = (s3, w3)"
        by (cases "calibrate_opamp_dac_offsets adc s2 ?w0")
      with persisted_calibrate_opamp_dac_offsets [of adc s2 ?w0]
      have p: "persisted w3 = persisted w" by (simp add: persisted_set_current)
      from 1 2 3 have "calibrate adc w ts = Returned STATE_MAIN (EEPROM_Write_settings s3 w3) ts2"
        by (simp add: calibrate_def Let_def calibrate_current_def STATE_MAIN_def)
      with p show ?thesis by blast
    qed
  qed
qed

text \<open>
  C3. Whatever the ticks, the calibration wizard does not fault, and: when the ticks end
  while it waits (in step 1 or step 2), the persisted settings, the persisted display
  configuration and the log of persisted writes are those from before the wizard; when
  it returns, it returns the home sentinel and has made exactly one persisted write, the
  last thing it did: the whole scratch record, which is then the persisted record.
\<close>

theorem calibrate_single_commit:
  "(case calibrate adc w ts of
      Blocked w' \<Rightarrow>
        settings w' = settings w \<and> display_settings_cc w' = display_settings_cc w
        \<and> eeprom_log w' = eeprom_log w
    | Returned r w' ts' \<Rightarrow>
        r = STATE_MAIN \<and> eeprom_log w' = eeprom_log w @ [Write_settings (settings w')]
        \<and> display_settings_cc w' = display_settings_cc w
    | Fault f \<Rightarrow> False)"
  using calibrate_outcome [of adc w ts] persisted_set_current [of 0 w]
  by (auto simp: persisted_def EEPROM_Write_settings_def)


lemma calibrate_example_blocked:
  "calibrate adc_ramp example_world [queued UI_EVENT_BUTTONPRESS 1, queued UI_EVENT_UPDOWN 3]
     = Blocked example_world"
  by (simp add: calibrate_def calibrate_offsets_def calibrate_voltage_def Let_def next_event_def
      waiting_def queued_def fresh_event_def set_current_def example_world_def
      CURRENT_FULLRANGE_MAX_def CURRENT_LOWRANGE_MAX_def)

lemma calibrate_example_returned:
  "calibrate adc_ramp example_world
     [queued UI_EVENT_BUTTONPRESS 1, queued UI_EVENT_UPDOWN 3, queued UI_EVENT_BUTTONPRESS 1]
     = Returned STATE_MAIN
        (example_world
          \<lparr>settings := example_settings\<lparr>opamp_offset_trim := 4, adc_current_offset := - 3,
                         adc_voltage_offset := 7, adc_voltage_gain := 2020\<rparr>,
           eeprom_log := [Write_settings
                       (example_settings\<lparr>opamp_offset_trim := 4, adc_current_offset := - 3,
                          adc_voltage_offset := 7, adc_voltage_gain := 2020\<rparr>)],
           opamp_trim_reg := 5\<rparr>) []"
  by (simp add: calibrate_def calibrate_offsets_def calibrate_voltage_def Let_def next_event_def
      waiting_def queued_def fresh_event_def set_current_def example_world_def
      CURRENT_FULLRANGE_MAX_def CURRENT_LOWRANGE_MAX_def calibrate_opamp_dac_offsets_def
      opamp_sweep.simps adc_ramp_def calibrate_current_def EEPROM_Write_settings_def
      example_settings_def c_div_def STATE_MAIN_def)

lemma calibrate_example_overtemp:
  "calibrate adc_ramp example_world
     [queued UI_EVENT_OVERTEMP 0, queued UI_EVENT_BUTTONPRESS 1, queued UI_EVENT_OVERTEMP 0,
      queued UI_EVENT_BUTTONPRESS 1]
     = Returned STATE_MAIN
        (example_world
          \<lparr>settings := example_settings\<lparr>opamp_offset_trim := 4, adc_current_offset := - 3,
                         adc_voltage_offset := 7\<rparr>,
           eeprom_log := [Write_settings
                       (example_settings\<lparr>opamp_offset_trim := 4, adc_current_offset := - 3,
                          adc_voltage_offset := 7\<rparr>)],
           opamp_trim_reg := 5\<rparr>) []"
  by (simp add: calibrate_def calibrate_offsets_def calibrate_voltage_def Let_def next_event_def
      waiting_def queued_def fresh_event_def set_current_def example_world_def
      CURRENT_FULLRANGE_MAX_def CURRENT_LOWRANGE_MAX_def calibrate_opamp_dac_offsets_def
      opamp_sweep.simps adc_ramp_def calibrate_current_def EEPROM_Write_settings_def
      example_settings_def c_div_def STATE_MAIN_def)

lemma calibrate_example_overtemp_blocked:
  "calibrate adc_ramp example_world [queued UI_EVENT_OVERTEMP 0] = Blocked example_world"
  by (simp add: calibrate_def calibrate_offsets_def Let_def next_event_def
      waiting_def queued_def fresh_event_def set_current_def example_world_def
      CURRENT_FULLRANGE_MAX_def CURRENT_LOWRANGE_MAX_def)

theorem calibrate_single_commit_witness:
  "calibrate adc_ramp example_world [queued UI_EVENT_BUTTONPRESS 1, queued UI_EVENT_UPDOWN 3]
     = Blocked example_world
   \<and> (case calibrate adc_ramp example_world
          [queued UI_EVENT_BUTTONPRESS 1, queued UI_EVENT_UPDOWN 3, queued UI_EVENT_BUTTONPRESS 1] of
        Returned r w' ts' \<Rightarrow>
          r = STATE_MAIN \<and> ts' = []
          \<and> eeprom_log w' = eeprom_log example_world @ [Write_settings (settings w')]
          \<and> settings w' = example_settings\<lparr>opamp_offset_trim := 4, adc_current_offset := - 3,
                              adc_voltage_offset := 7, adc_voltage_gain := 2020\<rparr>
      | Blocked w' \<Rightarrow> False
      | Fault f \<Rightarrow> False)"
  using calibrate_single_commit [where adc = adc_ramp and w = example_world and ts =
          "[queued UI_EVENT_BUTTONPRESS 1, queued UI_EVENT_UPDOWN 3, queued UI_EVENT_BUTTONPRESS 1]"]
  by (simp add: calibrate_example_blocked calibrate_example_returned)

section \<open>Overtemperature preemption\<close>

lemma cc_load_loop_overtemp:
  "delivers UI_EVENT_OVERTEMP t \<Longrightarrow> cc_load_loop ev w (t # ts) = Returned STATE_OVERTEMP w ts"
  using next_event_delivers [of UI_EVENT_OVERTEMP t ev] by (simp add: Let_def)

lemma menu_loop_overtemp:
  "waiting ev \<Longrightarrow> delivers UI_EVENT_OVERTEMP t
     \<Longrightarrow> menu_loop m selected ev w (t # ts) = Returned STATE_OVERTEMP w ts"
  using next_event_delivers [of UI_EVENT_OVERTEMP t ev] by (simp add: Let_def)

lemma set_contrast_loop_overtemp:
  "delivers UI_EVENT_OVERTEMP t
     \<Longrightarrow> set_contrast_loop c ev w (t # ts) = Returned STATE_OVERTEMP w ts"
  using next_event_delivers [of UI_EVENT_OVERTEMP t ev] by (simp add: Let_def)

lemma waiting_fresh_event: "waiting fresh_event"
  by (simp add: waiting_def fresh_event_def)

lemma menu_overtemp:
  "delivers UI_EVENT_OVERTEMP t \<Longrightarrow> menu m w (t # ts) = Returned STATE_OVERTEMP w ts"
  unfolding menu_def by (rule menu_loop_overtemp [OF waiting_fresh_event])

lemma display_config_overtemp_first:
  "delivers UI_EVENT_OVERTEMP t
     \<Longrightarrow> display_config config w (t # ts) = Returned STATE_OVERTEMP w ts"
  by (simp add: display_config_def menu_overtemp) (simp add: STATE_OVERTEMP_def)

lemma display_config_overtemp_second:
  "menu choose_readout_menu w ts = Returned display w1 (t # ts1) \<Longrightarrow> func display \<noteq> Fn_overtemp
     \<Longrightarrow> delivers UI_EVENT_OVERTEMP t
     \<Longrightarrow> display_config config w ts = Returned STATE_OVERTEMP w1 ts1"
  by (simp add: display_config_def menu_overtemp) (simp add: STATE_OVERTEMP_def)

lemma calibrate_offsets_loop_overtemp:
  "delivers UI_EVENT_OVERTEMP t
     \<Longrightarrow> calibrate_offsets_loop ev s w (t # ts) = calibrate_offsets_loop (next_event ev t) s w ts"
  using next_event_delivers [of UI_EVENT_OVERTEMP t ev] by (simp add: Let_def waiting_def)

lemma calibrate_voltage_loop_overtemp:
  "waiting ev \<Longrightarrow> delivers UI_EVENT_OVERTEMP t
     \<Longrightarrow> calibrate_voltage_loop ev s w (t # ts) = calibrate_voltage_loop (next_event ev t) s w ts"
  using next_event_delivers [of UI_EVENT_OVERTEMP t ev] by (simp add: Let_def)

lemma calibrate_never_overtemp:
  "calibrate adc w ts \<noteq> Returned STATE_OVERTEMP w' ts'"
  using calibrate_outcome [of adc w ts] by (auto simp: STATE_MAIN_def STATE_OVERTEMP_def)

text \<open>
  C1. An \<open>OVERTEMP\<close> event delivered to a screen other than the overtemp and splash
  screens makes the screen return the overtemp descriptor in that cycle. The CC-load
  screen, the menus, the readout configuration and the contrast editor do so (the lemmas
  above). The calibration wizard does not: steps 1 and 2 take the event and go on
  waiting for button 1, and the wizard returns the home sentinel only
  (\<open>calibrate_never_overtemp\<close>). With an \<open>OVERTEMP\<close> event as the only tick the wizard
  is still waiting; with an \<open>OVERTEMP\<close> event before each of the two button presses it
  runs to its end and returns the home sentinel, the two events lost.
\<close>

theorem calibrate_ignores_overtemp:
  "delivers UI_EVENT_OVERTEMP (queued UI_EVENT_OVERTEMP 0)
   \<and> calibrate adc_ramp example_world [queued UI_EVENT_OVERTEMP 0] = Blocked example_world
   \<and> calibrate adc_ramp example_world
       [queued UI_EVENT_OVERTEMP 0, queued UI_EVENT_BUTTONPRESS 1, queued UI_EVENT_OVERTEMP 0,
        queued UI_EVENT_BUTTONPRESS 1]
     = Returned STATE_MAIN
        (example_world
          \<lparr>settings := example_settings\<lparr>opamp_offset_trim := 4, adc_current_offset := - 3,
                         adc_voltage_offset := 7\<rparr>,
           eeprom_log := [Write_settings
                       (example_settings\<lparr>opamp_offset_trim := 4, adc_current_offset := - 3,
                          adc_voltage_offset := 7\<rparr>)],
           opamp_trim_reg := 5\<rparr>) []
   \<and> STATE_MAIN \<noteq> STATE_OVERTEMP"
  by (simp add: calibrate_example_overtemp calibrate_example_overtemp_blocked)
     (simp add: delivers_def queued_def STATE_MAIN_def STATE_OVERTEMP_def)

end
